theory Spec2Isabelle
  imports Complex_Main "HOL-Library.AList" "HOL-Library.DAList" "HOL-Library.Log_Nat"
begin

section \<open>Enron-read.ipynb, cell 5: from raw messages to the edge list\<close>

subsection \<open>The fragment of Python's \<open>re\<close> the three patterns use\<close>

text \<open>
  A message is a Python \<open>str\<close>; its characters are modelled by \<open>char\<close>, read as the code
  points below 256. Only \<open>group()\<close> (the whole match) is read from a match object, so the
  capturing parentheses of the patterns carry no information and are not represented.
\<close>

datatype rx =
    Eps
  | Lit char
  | Dot
  | Space
  | Word
  | Cat rx rx
  | Opt rx
  | Star rx
  | StarLazy rx

text \<open>\<open>\s\<close> on a \<open>str\<close> pattern: the characters for which \<open>str.isspace\<close> holds.\<close>

definition is_space :: "char \<Rightarrow> bool" where
  "is_space c =
     (let n = (of_char c :: nat)
      in (9 \<le> n \<and> n \<le> 13) \<or> (28 \<le> n \<and> n \<le> 32) \<or> n = 133 \<or> n = 160)"

text \<open>\<open>\w\<close> on a \<open>str\<close> pattern: alphanumeric characters and the underscore.\<close>

definition is_word :: "char \<Rightarrow> bool" where
  "is_word c =
     (let n = (of_char c :: nat)
      in (48 \<le> n \<and> n \<le> 57) \<or> (65 \<le> n \<and> n \<le> 90) \<or> n = 95 \<or> (97 \<le> n \<and> n \<le> 122)
         \<or> n = 170 \<or> n = 178 \<or> n = 179 \<or> n = 181 \<or> n = 185 \<or> n = 186
         \<or> (188 \<le> n \<and> n \<le> 190) \<or> (192 \<le> n \<and> n \<le> 214) \<or> (216 \<le> n \<and> n \<le> 246)
         \<or> (248 \<le> n \<and> n \<le> 255))"

text \<open>\<open>.\<close> without \<open>re.DOTALL\<close>: any character except the line feed.\<close>

definition is_dot :: "char \<Rightarrow> bool" where
  "is_dot c = (c \<noteq> CHR 0x0A)"

fun one_char :: "(char \<Rightarrow> bool) \<Rightarrow> string \<Rightarrow> string list" where
  "one_char p [] = []"
| "one_char p (x # xs) = (if p x then [xs] else [])"

text \<open>
  \<open>rmatch r s\<close> lists, in the order the backtracking matcher tries them, the remainders of
  \<open>s\<close> after each way of matching \<open>r\<close> at the start of \<open>s\<close>. A greedy operator lists the
  longer alternative first, a lazy one the shorter. An iteration of a starred body that
  consumes nothing is not repeated.
\<close>

fun rmatch :: "rx \<Rightarrow> string \<Rightarrow> string list" where
  "rmatch Eps s = [s]"
| "rmatch (Lit c) s = one_char (\<lambda>x. x = c) s"
| "rmatch Dot s = one_char is_dot s"
| "rmatch Space s = one_char is_space s"
| "rmatch Word s = one_char is_word s"
| "rmatch (Cat r1 r2) s = concat (map (rmatch r2) (rmatch r1 s))"
| "rmatch (Opt r) s = rmatch r s @ [s]"
| "rmatch (Star r) s =
     concat (map (\<lambda>s'. if length s' < length s then rmatch (Star r) s' else []) (rmatch r s))
     @ [s]"
| "rmatch (StarLazy r) s =
     s # concat (map (\<lambda>s'. if length s' < length s then rmatch (StarLazy r) s' else [])
                     (rmatch r s))"

text \<open>\<open>r+\<close> is \<open>r\<close> followed by \<open>r*\<close>.\<close>

definition Plus :: "rx \<Rightarrow> rx" where
  "Plus r = Cat r (Star r)"

text \<open>A run of literal characters, and the concatenation of a list of patterns.\<close>

definition lits :: "string \<Rightarrow> rx" where
  "lits cs = foldr (\<lambda>c r. Cat (Lit c) r) cs Eps"

definition cats :: "rx list \<Rightarrow> rx" where
  "cats rs = foldr Cat rs Eps"

text \<open>
  \<open>pattern.search(s).group()\<close>: the first match at the leftmost position that has one;
  \<open>None\<close> when no position has a match.
\<close>

fun search :: "rx \<Rightarrow> string \<Rightarrow> string option" where
  "search r s =
     (case rmatch r s of
        rest # _ \<Rightarrow> Some (take (length s - length rest) s)
      | [] \<Rightarrow> (case s of [] \<Rightarrow> None | _ # t \<Rightarrow> search r t))"

text \<open>\<^verbatim>\<open>fromRegex = re.compile(r'From:\s(\w)+(\.)?(\w)*@(\w)+.com')\<close>\<close>

definition fromRegex :: rx where
  "fromRegex =
     cats [lits ''From:'', Space, Plus Word, Opt (Lit CHR ''.''), Star Word, Lit CHR ''@'',
           Plus Word, Dot, lits ''com'']"

text \<open>\<^verbatim>\<open>toRegex = re.compile(r'To:\s(\w)+(\.)?(\w)*@(\w)+.com(.*?)\n')\<close>\<close>

definition toRegex :: rx where
  "toRegex =
     cats [lits ''To:'', Space, Plus Word, Opt (Lit CHR ''.''), Star Word, Lit CHR ''@'',
           Plus Word, Dot, lits ''com'', StarLazy Dot, Lit CHR 0x0A]"

text \<open>\<^verbatim>\<open>dateRegex = re.compile(r'Date:\s(.*?)\n')\<close>\<close>

definition dateRegex :: rx where
  "dateRegex = cats [lits ''Date:'', Space, StarLazy Dot, Lit CHR 0x0A]"

subsection \<open>The string methods of the loop body\<close>

text \<open>\<open>s.startswith(p)\<close>\<close>

fun startswith :: "string \<Rightarrow> string \<Rightarrow> bool" where
  "startswith s [] = True"
| "startswith [] (p # ps) = False"
| "startswith (c # cs) (p # ps) = (c = p \<and> startswith cs ps)"

text \<open>
  \<open>s.replace(old, new)\<close>: every occurrence of \<open>old\<close>, found from left to right without
  overlaps, is replaced. With an empty \<open>old\<close>, \<open>new\<close> is inserted before every character
  and at the end.
\<close>

function replace :: "string \<Rightarrow> string \<Rightarrow> string \<Rightarrow> string" where
  "replace old new s =
     (if old = [] then new @ concat (map (\<lambda>c. c # new) s)
      else if s = [] then []
      else if startswith s old then new @ replace old new (drop (length old) s)
      else hd s # replace old new (tl s))"
  by pat_completeness auto
termination
  by (relation "measure (\<lambda>(old, new, s). length s)") (auto simp: neq_Nil_conv)

datatype error = AttributeError | ValueError

text \<open>
  \<open>s.split(sep)\<close>: the pieces between the occurrences of \<open>sep\<close>, found from left to right
  without overlaps; empty pieces are kept. An empty separator raises \<open>ValueError\<close>.
\<close>

function split_at :: "string \<Rightarrow> string \<Rightarrow> string \<Rightarrow> string list" where
  "split_at sep piece s =
     (if s = [] \<or> sep = [] then [rev piece]
      else if startswith s sep then rev piece # split_at sep [] (drop (length sep) s)
      else split_at sep (hd s # piece) (tl s))"
  by pat_completeness auto
termination
  by (relation "measure (\<lambda>(sep, piece, s). length s)") (auto simp: neq_Nil_conv)

definition split :: "string \<Rightarrow> string \<Rightarrow> error + string list" where
  "split s sep = (if sep = [] then Inl ValueError else Inr (split_at sep [] s))"

subsection \<open>The loop\<close>

text \<open>A row of the \<open>links\<close> frame: the columns \<open>Date\<close>, \<open>From\<close>, \<open>To\<close>.\<close>

type_synonym row = "string \<times> string \<times> string"

text \<open>
  The state the loop mutates: the frame \<open>links\<close>, as the list of its (index label, row)
  pairs in row order, and the counter \<open>links_index\<close>.
\<close>

record loop_state =
  links :: "(nat \<times> row) list"
  links_index :: nat

text \<open>
  \<^verbatim>\<open>links.loc[links_index] = [date, m_from, address]; links_index += 1\<close>
  Assigning to \<open>.loc\<close> overwrites the row with that label when there is one and appends a
  row otherwise, which is what \<open>AList.update\<close> does.
\<close>

definition add_link :: "row \<Rightarrow> loop_state \<Rightarrow> loop_state" where
  "add_link r st =
     st\<lparr>links := AList.update (links_index st) r (links st),
        links_index := links_index st + 1\<rparr>"

text \<open>\<^verbatim>\<open>for address in addresses: if address != '': ...\<close>\<close>

fun add_addresses :: "string \<Rightarrow> string \<Rightarrow> string list \<Rightarrow> loop_state \<Rightarrow> loop_state" where
  "add_addresses date m_from [] st = st"
| "add_addresses date m_from (address # addresses) st =
     add_addresses date m_from addresses
       (if address \<noteq> [] then add_link (date, m_from, address) st else st)"

text \<open>
  The body of the loop for one message. \<open>date\<close> is the result of \<open>dateRegex.search\<close>, and
  \<open>date.group()\<close> is evaluated inside the branch guarded by \<open>mf and me\<close> only; on \<open>None\<close>
  it raises \<open>AttributeError\<close>.
\<close>

definition body :: "string \<Rightarrow> loop_state \<Rightarrow> error + loop_state" where
  "body message st =
     (let mf = search fromRegex message;
          me = search toRegex message;
          date = search dateRegex message
      in case (mf, me) of
           (Some mfg, Some meg) \<Rightarrow>
             (case date of
                None \<Rightarrow> Inl AttributeError
              | Some dg \<Rightarrow>
                  let date = replace [CHR 0x0A] [] (replace ''Date: '' [] dg);
                      m_from = replace ''From: '' [] mfg;
                      m_to = replace [CHR 0x0A] [] (replace ''To: '' [] meg)
                  in if CHR '','' \<in> set m_to
                     then (case split m_to '', '' of
                             Inl e \<Rightarrow> Inl e
                           | Inr addresses \<Rightarrow> Inr (add_addresses date m_from addresses st))
                     else Inr (add_link (date, m_from, m_to) st))
         | _ \<Rightarrow> Inr st)"

text \<open>\<^verbatim>\<open>for i in range(len(data)): ...\<close> over the column \<open>data['message']\<close>.\<close>

fun loop :: "string list \<Rightarrow> loop_state \<Rightarrow> error + loop_state" where
  "loop [] st = Inr st"
| "loop (message # data) st =
     (case body message st of Inl e \<Rightarrow> Inl e | Inr st' \<Rightarrow> loop data st')"

text \<open>
  Cells 4 and 5 together: the loop run from the empty frame with \<open>links_index = 0\<close>; the
  result is the sequence of rows of \<open>links\<close>, or the exception that ended the loop.
\<close>

definition build :: "string list \<Rightarrow> error + row list" where
  "build data =
     (case loop data \<lparr>links = [], links_index = 0\<rparr> of
        Inl e \<Rightarrow> Inl e
      | Inr st \<Rightarrow> Inr (map snd (links st)))"

subsection \<open>What the loop is specified to produce\<close>

text \<open>
  The recipient list of a \<open>To\<close> value, in the words of the specification: split on
  \<open>", "\<close> when a comma is present, a single recipient otherwise, empty entries discarded.
\<close>

definition spec_recipients :: "string \<Rightarrow> string list" where
  "spec_recipients m_to =
     (if CHR '','' \<in> set m_to then filter (\<lambda>address. address \<noteq> []) (split_at '', '' [] m_to)
      else [m_to])"

text \<open>
  The header extractor: the date, the sender and the recipients of a message, when all
  three header lines are found. The date is the text of the \<open>Date\<close> line; the loop stores
  it as it is.
\<close>

definition spec_extract :: "string \<Rightarrow> (string \<times> string \<times> string list) option" where
  "spec_extract message =
     (case (search fromRegex message, search toRegex message, search dateRegex message) of
        (Some mfg, Some meg, Some dg) \<Rightarrow>
          Some (replace [CHR 0x0A] [] (replace ''Date: '' [] dg),
                replace ''From: '' [] mfg,
                spec_recipients (replace [CHR 0x0A] [] (replace ''To: '' [] meg)))
      | _ \<Rightarrow> None)"

text \<open>
  The edges of one message: on success one edge per recipient, in the order of the
  recipients, all with the date and the sender of the message; on failure none.
\<close>

definition spec_message_edges :: "string \<Rightarrow> row list" where
  "spec_message_edges message =
     (case spec_extract message of
        None \<Rightarrow> []
      | Some (date, m_from, recipients) \<Rightarrow> map (\<lambda>address. (date, m_from, address)) recipients)"

text \<open>The edges of a batch: those of its messages, in message order.\<close>

definition spec_edges :: "string list \<Rightarrow> row list" where
  "spec_edges data = concat (map spec_message_edges data)"

text \<open>A message in which the sender and the recipient line are found and no date line is.\<close>

definition date_unmatched :: "string \<Rightarrow> bool" where
  "date_unmatched message =
     (search fromRegex message \<noteq> None \<and> search toRegex message \<noteq> None \<and>
      search dateRegex message = None)"

text \<open>Concatenation of two results, the first exception winning.\<close>

definition result_append :: "error + 'a list \<Rightarrow> error + 'a list \<Rightarrow> error + 'a list" where
  "result_append a b =
     (case a of
        Inl e \<Rightarrow> Inl e
      | Inr xs \<Rightarrow> (case b of Inl e \<Rightarrow> Inl e | Inr ys \<Rightarrow> Inr (xs @ ys)))"

text \<open>
  The frame with the rows \<open>rs\<close> added at the labels \<open>links_index\<close>, \<open>links_index + 1\<close>, ...,
  and the invariant of the loop: the labels of the frame are \<open>0, ..., links_index - 1\<close>.
\<close>

definition append_rows :: "row list \<Rightarrow> loop_state \<Rightarrow> loop_state" where
  "append_rows rs st =
     st\<lparr>links := links st @ zip [links_index st ..< links_index st + length rs] rs,
        links_index := links_index st + length rs\<rparr>"

definition labels_ok :: "loop_state \<Rightarrow> bool" where
  "labels_ok st = (map fst (links st) = [0 ..< links_index st])"

section \<open>Utils/package.scala: similarity and correlation of time series\<close>

subsection \<open>\<open>Double\<close>\<close>

text \<open>
  A \<open>Double\<close> is a finite value, one of the two infinities, or NaN. Finite arithmetic is
  exact here: rounding, overflow to an infinity and underflow are not modelled, and the two
  zeros are one value, which divides like \<open>+0.0\<close>. What is modelled is what the code
  relies on at the edges: a division by zero gives an infinity or NaN instead of failing,
  every comparison with NaN is false, and NaN and the infinities propagate through
  \<open>+\<close>, \<open>-\<close>, \<open>*\<close>, \<open>/\<close>, \<open>min\<close>, \<open>max\<close> and \<open>sqrt\<close> as IEEE 754 says.
  This arithmetic serves where the result does not depend on rounding or on the order of a
  sum; the functions are given over any arithmetic, and the similarity over the rounding
  one, in the second part.
\<close>

datatype double = Fin real | PInf | NInf | NaN

instantiation double :: comm_monoid_add
begin

definition zero_double :: double where
  "zero_double = Fin 0"

fun plus_double :: "double \<Rightarrow> double \<Rightarrow> double" where
  "plus_double NaN b = NaN"
| "plus_double a NaN = NaN"
| "plus_double (Fin x) (Fin y) = Fin (x + y)"
| "plus_double (Fin x) b = b"
| "plus_double a (Fin y) = a"
| "plus_double PInf PInf = PInf"
| "plus_double NInf NInf = NInf"
| "plus_double PInf NInf = NaN"
| "plus_double NInf PInf = NaN"

instance
proof (intro_classes, goal_cases)
  case (1 x y z)
  show ?case
    by (cases x; cases y; cases z) simp_all
next
  case (2 x y)
  show ?case
    by (cases x; cases y) simp_all
next
  case (3 x)
  show ?case
    by (cases x) (simp_all add: zero_double_def)
qed

end

text \<open>Unary minus, and \<open>a - b\<close>.\<close>

fun dneg :: "double \<Rightarrow> double" where
  "dneg (Fin x) = Fin (- x)"
| "dneg PInf = NInf"
| "dneg NInf = PInf"
| "dneg NaN = NaN"

definition dsub :: "double \<Rightarrow> double \<Rightarrow> double" where
  "dsub a b = a + dneg b"

text \<open>The sign of a value that is not NaN, as \<open>-1\<close>, \<open>0\<close> or \<open>1\<close>; an infinity of a given sign.\<close>

fun dsgn :: "double \<Rightarrow> int" where
  "dsgn (Fin x) = (if x < 0 then - 1 else if x = 0 then 0 else 1)"
| "dsgn PInf = 1"
| "dsgn NInf = - 1"
| "dsgn NaN = 0"

definition inf_of_sign :: "int \<Rightarrow> double" where
  "inf_of_sign s = (if s < 0 then NInf else if s = 0 then NaN else PInf)"

text \<open>\<open>a * b\<close>: an infinity times zero is NaN.\<close>

fun dmul :: "double \<Rightarrow> double \<Rightarrow> double" where
  "dmul NaN b = NaN"
| "dmul a NaN = NaN"
| "dmul (Fin x) (Fin y) = Fin (x * y)"
| "dmul a b = inf_of_sign (dsgn a * dsgn b)"

text \<open>
  \<open>a / b\<close>: a nonzero value over zero is an infinity, zero over zero and an infinity over
  an infinity are NaN, a finite value over an infinity is zero.
\<close>

fun ddiv :: "double \<Rightarrow> double \<Rightarrow> double" where
  "ddiv NaN b = NaN"
| "ddiv a NaN = NaN"
| "ddiv (Fin x) (Fin y) = (if y = 0 then inf_of_sign (dsgn (Fin x)) else Fin (x / y))"
| "ddiv (Fin x) b = Fin 0"
| "ddiv a (Fin y) = inf_of_sign (dsgn a * (if y < 0 then - 1 else 1))"
| "ddiv a b = NaN"

text \<open>\<open>a < b\<close>, \<open>a > b\<close> and \<open>a == b\<close>: false whenever an operand is NaN.\<close>

fun dlt :: "double \<Rightarrow> double \<Rightarrow> bool" where
  "dlt NaN b = False"
| "dlt a NaN = False"
| "dlt (Fin x) (Fin y) = (x < y)"
| "dlt a NInf = False"
| "dlt PInf b = False"
| "dlt a b = True"

definition dgt :: "double \<Rightarrow> double \<Rightarrow> bool" where
  "dgt a b = dlt b a"

definition deq :: "double \<Rightarrow> double \<Rightarrow> bool" where
  "deq a b = (a \<noteq> NaN \<and> a = b)"

text \<open>
  \<open>min\<close> and \<open>max\<close> are imported from \<open>breeze.linalg\<close>, which is not part of the
  repository; on two \<open>Double\<close>s they are \<open>scala.math.min\<close> and \<open>scala.math.max\<close>: NaN
  when an operand is NaN.
\<close>

definition dmin :: "double \<Rightarrow> double \<Rightarrow> double" where
  "dmin a b = (if a = NaN \<or> b = NaN then NaN else if dlt b a then b else a)"

definition dmax :: "double \<Rightarrow> double \<Rightarrow> double" where
  "dmax a b = (if a = NaN \<or> b = NaN then NaN else if dlt a b then b else a)"

text \<open>\<open>Math.sqrt(a)\<close> and \<open>Math.pow(a, 2)\<close>.\<close>

fun dsqrt :: "double \<Rightarrow> double" where
  "dsqrt (Fin x) = (if x < 0 then NaN else Fin (sqrt x))"
| "dsqrt PInf = PInf"
| "dsqrt a = NaN"

fun dpow2 :: "double \<Rightarrow> double" where
  "dpow2 (Fin x) = Fin (x * x)"
| "dpow2 NaN = NaN"
| "dpow2 a = PInf"

text \<open>The widening of an \<open>Int\<close> to a \<open>Double\<close>.\<close>

definition toDouble :: "int \<Rightarrow> double" where
  "toDouble i = Fin (of_int i)"

subsection \<open>\<open>Map[Int, Double]\<close>\<close>

text \<open>
  An immutable map is a list of entries with distinct keys, in the order in which the map
  is traversed. The keys are \<open>Int\<close>s; they are only compared, never computed with, so
  their 32-bit range plays no role and they are modelled by \<open>int\<close>.
\<close>

type_synonym series = "(int, double) alist"

text \<open>\<open>m.keys\<close> and \<open>m.keySet\<close>, in traversal order.\<close>

definition keys :: "series \<Rightarrow> int list" where
  "keys m = map fst (DAList.impl_of m)"

text \<open>\<open>m(key)\<close>: \<open>None\<close> stands for the \<open>NoSuchElementException\<close> of a missing key.\<close>

definition apply_map :: "series \<Rightarrow> int \<Rightarrow> double option" where
  "apply_map m key = map_of (DAList.impl_of m) key"

text \<open>\<open>s1.intersect(s2)\<close> is \<open>s1 filter s2\<close>: the elements of \<open>s1\<close> that \<open>s2\<close> contains.\<close>

definition intersect :: "int list \<Rightarrow> int list \<Rightarrow> int list" where
  "intersect s1 s2 = filter (\<lambda>k. k \<in> set s2) s1"

text \<open>\<^verbatim>\<open>hour > start & hour < stop\<close>\<close>

definition inWindow :: "int \<Rightarrow> int \<Rightarrow> int \<Rightarrow> bool" where
  "inWindow start stop hour = (hour > start \<and> hour < stop)"

subsection \<open>\<open>compareTimeSeries(m1, m2, isFiltered)\<close>\<close>

text \<open>
  \<^verbatim>\<open>var m1Freq = 1; if (isFiltered) { m1Freq = m1.keys.size }\<close>
\<close>

definition keyFreq :: "bool \<Rightarrow> series \<Rightarrow> int" where
  "keyFreq isFiltered m = (if isFiltered then int (length (keys m)) else 1)"

text \<open>\<^verbatim>\<open>for (key <- commonKeys) { ... }\<close> with the accumulator \<open>weight\<close>.\<close>

fun weightLoop :: "series \<Rightarrow> series \<Rightarrow> int \<Rightarrow> int \<Rightarrow> int list \<Rightarrow> double \<Rightarrow> double option" where
  "weightLoop m1 m2 m1Freq m2Freq [] weight = Some weight"
| "weightLoop m1 m2 m1Freq m2Freq (key # commonKeys) weight =
     (case apply_map m1 key of
        None \<Rightarrow> None
      | Some v1 \<Rightarrow>
          (case apply_map m2 key of
             None \<Rightarrow> None
           | Some v2 \<Rightarrow>
               let value1 = ddiv v1 (toDouble m1Freq);
                   value2 = ddiv v2 (toDouble m2Freq);
                   similarity = ddiv (dmin value1 value2) (dmax value1 value2)
               in weightLoop m1 m2 m1Freq m2Freq commonKeys
                    (if dgt similarity (Fin (1 / 2)) then weight + similarity
                     else dsub weight similarity)))"

definition compareTimeSeries :: "series \<Rightarrow> series \<Rightarrow> bool \<Rightarrow> double option" where
  "compareTimeSeries m1 m2 isFiltered =
     (let commonKeys = intersect (keys m2) (keys m1);
          m1Freq = keyFreq isFiltered m1;
          m2Freq = keyFreq isFiltered m2
      in if commonKeys = [] then Some (toDouble 0)
         else weightLoop m1 m2 m1Freq m2Freq commonKeys (Fin 0))"

subsection \<open>\<open>compareTimeSeries(m1, m2, start, stop, upperBoundActivationsNumber, isFiltered, lambda)\<close>\<close>

text \<open>
  \<^verbatim>\<open>var m1Freq = 1
  if (isFiltered) { m1Freq = m1Filtered.keys.count(key => key > start & key < stop) }\<close>
\<close>

definition windowFreq :: "bool \<Rightarrow> int \<Rightarrow> int \<Rightarrow> series \<Rightarrow> int" where
  "windowFreq isFiltered start stop m =
     (if isFiltered then int (length (filter (inWindow start stop) (keys m))) else 1)"

fun weightLoopWindow ::
  "series \<Rightarrow> series \<Rightarrow> int \<Rightarrow> int \<Rightarrow> double \<Rightarrow> int list \<Rightarrow> double \<Rightarrow> double option" where
  "weightLoopWindow m1Filtered m2Filtered m1Freq m2Freq lambda [] weight = Some weight"
| "weightLoopWindow m1Filtered m2Filtered m1Freq m2Freq lambda (key # commonKeys) weight =
     (case apply_map m1Filtered key of
        None \<Rightarrow> None
      | Some v1 \<Rightarrow>
          (case apply_map m2Filtered key of
             None \<Rightarrow> None
           | Some v2 \<Rightarrow>
               let value1 = ddiv v1 (toDouble m1Freq);
                   value2 = ddiv v2 (toDouble m2Freq);
                   similarity = ddiv (dmin value1 value2) (dmax value1 value2)
               in weightLoopWindow m1Filtered m2Filtered m1Freq m2Freq lambda commonKeys
                    (if dgt similarity lambda then weight + similarity
                     else weight + Fin 0)))"

definition compareTimeSeriesWindow ::
  "series \<Rightarrow> series \<Rightarrow> int \<Rightarrow> int \<Rightarrow> int \<Rightarrow> bool \<Rightarrow> double \<Rightarrow> double option" where
  "compareTimeSeriesWindow m1 m2 start stop upperBoundActivationsNumber isFiltered lambda =
     (let m1Filtered = DAList.filter (\<lambda>pair. dgt (snd pair) (toDouble upperBoundActivationsNumber)) m1;
          m2Filtered = DAList.filter (\<lambda>pair. dgt (snd pair) (toDouble upperBoundActivationsNumber)) m2;
          commonKeys = filter (inWindow start stop) (intersect (keys m2Filtered) (keys m1Filtered));
          m1Freq = windowFreq isFiltered start stop m1Filtered;
          m2Freq = windowFreq isFiltered start stop m2Filtered
      in if commonKeys = [] then Some (toDouble 0)
         else weightLoopWindow m1Filtered m2Filtered m1Freq m2Freq lambda commonKeys (Fin 0))"

subsection \<open>\<open>pearsonCorrelation(m1, m2, start, stop, isFiltered)\<close>\<close>

text \<open>\<open>xs.slice(from, until)\<close>\<close>

definition slice :: "nat \<Rightarrow> nat \<Rightarrow> 'a list \<Rightarrow> 'a list" where
  "slice from until xs = take (until - from) (drop from xs)"

text \<open>
  \<^verbatim>\<open>m.filterKeys(v => commonKeys_.contains(v)).mapValues(_ / mFreq)\<close>: the entries of
  \<open>m\<close> whose key is in the block, in the order of \<open>m\<close>, each value divided.
\<close>

definition commonPart :: "series \<Rightarrow> int list \<Rightarrow> int \<Rightarrow> (int \<times> double) list" where
  "commonPart m commonKeys' mFreq =
     map (\<lambda>(k, v). (k, ddiv v (toDouble mFreq)))
         (filter (\<lambda>(k, v). k \<in> set commonKeys') (DAList.impl_of m))"

text \<open>
  \<^verbatim>\<open>commonKeys_.foldLeft(0.0)((accum, element) => accum + m1Common(element) * m2Common(element))\<close>
\<close>

fun pSumLoop ::
  "(int \<times> double) list \<Rightarrow> (int \<times> double) list \<Rightarrow> int list \<Rightarrow> double \<Rightarrow> double option" where
  "pSumLoop m1Common m2Common [] accum = Some accum"
| "pSumLoop m1Common m2Common (element # commonKeys') accum =
     (case map_of m1Common element of
        None \<Rightarrow> None
      | Some a \<Rightarrow>
          (case map_of m2Common element of
             None \<Rightarrow> None
           | Some b \<Rightarrow> pSumLoop m1Common m2Common commonKeys' (accum + dmul a b)))"

text \<open>The body of the loop over \<open>t\<close>: the new value of \<open>sum\<close>.\<close>

definition pearsonBlock ::
  "series \<Rightarrow> series \<Rightarrow> int \<Rightarrow> int \<Rightarrow> int list \<Rightarrow> nat \<Rightarrow> nat \<Rightarrow> double \<Rightarrow> double option" where
  "pearsonBlock m1 m2 m1Freq m2Freq commonKeys n t sum_acc =
     (let commonKeys' = slice t (t + 24) commonKeys;
          m1Common = commonPart m1 commonKeys' m1Freq;
          m2Common = commonPart m2 commonKeys' m2Freq;
          sum1 = foldl (+) 0 (map snd m1Common);
          sum2 = foldl (+) 0 (map snd m2Common);
          sum1Sq = foldl (\<lambda>acc v. acc + dpow2 v) (Fin 0) (map snd m1Common);
          sum2Sq = foldl (\<lambda>acc v. acc + dpow2 v) (Fin 0) (map snd m2Common)
      in case pSumLoop m1Common m2Common commonKeys' (Fin 0) of
           None \<Rightarrow> None
         | Some pSum \<Rightarrow>
             let numerator = dsub pSum (ddiv (dmul sum1 sum2) (toDouble (int n)));
                 denominator =
                   dsqrt (dmul (dsub sum1Sq (ddiv (dpow2 sum1) (toDouble (int n))))
                               (dsub sum2Sq (ddiv (dpow2 sum2) (toDouble (int n)))))
             in Some (if deq denominator (toDouble 0) then sum_acc
                      else sum_acc + ddiv numerator denominator))"

text \<open>\<^verbatim>\<open>for (t <- 0 until commonKeys.size by 24) { ... }\<close>\<close>

function pearsonLoop ::
  "series \<Rightarrow> series \<Rightarrow> int \<Rightarrow> int \<Rightarrow> int list \<Rightarrow> nat \<Rightarrow> nat \<Rightarrow> double \<Rightarrow> double option" where
  "pearsonLoop m1 m2 m1Freq m2Freq commonKeys n t sum_acc =
     (if t < length commonKeys
      then (case pearsonBlock m1 m2 m1Freq m2Freq commonKeys n t sum_acc of
              None \<Rightarrow> None
            | Some sum_next \<Rightarrow> pearsonLoop m1 m2 m1Freq m2Freq commonKeys n (t + 24) sum_next)
      else Some sum_acc)"
  by pat_completeness auto
termination
  by (relation "measure (\<lambda>(m1, m2, m1Freq, m2Freq, commonKeys, n, t, sum_acc).
        length commonKeys - t)") auto

definition pearsonCorrelation ::
  "series \<Rightarrow> series \<Rightarrow> int \<Rightarrow> int \<Rightarrow> bool \<Rightarrow> double option" where
  "pearsonCorrelation m1 m2 start stop isFiltered =
     (let commonKeys = sort (filter (inWindow start stop) (intersect (keys m2) (keys m1)));
          n = length commonKeys
      in if n = 0 then Some (Fin 0)
         else let m1Freq = windowFreq isFiltered start stop m1;
                  m2Freq = windowFreq isFiltered start stop m2
              in pearsonLoop m1 m2 m1Freq m2Freq commonKeys n 0 (Fin 0))"

subsection \<open>What the unwindowed similarity is specified to compute\<close>

text \<open>
  \<open>a[key]\<close> in the formulas of the specification. A key that is absent stands for zero
  activity; the formulas below read common keys only.
\<close>

definition value_at :: "series \<Rightarrow> int \<Rightarrow> double" where
  "value_at m key = (case apply_map m key of Some v \<Rightarrow> v | None \<Rightarrow> Fin 0)"

text \<open>\<open>sim = min(v1, v2) / max(v1, v2)\<close>\<close>

definition spec_sim :: "double \<Rightarrow> double \<Rightarrow> double" where
  "spec_sim v1 v2 = ddiv (dmin v1 v2) (dmax v1 v2)"


text \<open>Consecutive blocks of at most \<open>k\<close> elements.\<close>

function chunks :: "nat \<Rightarrow> 'a list \<Rightarrow> 'a list list" where
  "chunks k xs = (if k = 0 \<or> xs = [] then [] else take k xs # chunks k (drop k xs))"
  by pat_completeness auto
termination
  by (relation "measure (\<lambda>(k, xs). length xs)") auto

text \<open>A value that is finite and not zero.\<close>

fun finite_nonzero :: "double \<Rightarrow> bool" where
  "finite_nonzero (Fin x) = (x \<noteq> 0)"
| "finite_nonzero a = False"

declare rmatch.simps [simp del] search.simps [simp del] replace.simps [simp del]
  split_at.simps [simp del] pearsonLoop.simps [simp del] chunks.simps [simp del]

section \<open>The three functions over any \<open>Double\<close> arithmetic\<close>

text \<open>
  What a function returns to the last bit depends on how every \<open>+\<close>, \<open>-\<close>, \<open>*\<close>, \<open>/\<close>,
  \<open>sqrt\<close> and \<open>pow\<close> rounds, and the sums of the loops depend on the order of their terms.
  Here the three functions are given again with the operations on \<open>Double\<close> as parameters,
  about which nothing is assumed: what is proved of them holds for the rounding operations
  of the JVM as well as for the exact ones above. The first record holds what the two
  similarity functions use, the second adds what the correlation uses.
\<close>

record 'd sim_arith =
  lit_zero :: 'd
  lit_half :: 'd
  of_Int :: "int \<Rightarrow> 'd"
  d_add :: "'d \<Rightarrow> 'd \<Rightarrow> 'd"
  d_sub :: "'d \<Rightarrow> 'd \<Rightarrow> 'd"
  d_div :: "'d \<Rightarrow> 'd \<Rightarrow> 'd"
  d_min :: "'d \<Rightarrow> 'd \<Rightarrow> 'd"
  d_max :: "'d \<Rightarrow> 'd \<Rightarrow> 'd"
  d_gt :: "'d \<Rightarrow> 'd \<Rightarrow> bool"

record 'd arith = "'d sim_arith" +
  d_mul :: "'d \<Rightarrow> 'd \<Rightarrow> 'd"
  d_sqrt :: "'d \<Rightarrow> 'd"
  d_pow2 :: "'d \<Rightarrow> 'd"
  d_eq :: "'d \<Rightarrow> 'd \<Rightarrow> bool"

text \<open>
  \<open>lit_zero\<close> and \<open>lit_half\<close> are the literals \<open>0.0\<close> and \<open>0.5\<close>, \<open>of_Int\<close> the widening of
  an \<open>Int\<close>, \<open>d_pow2 x\<close> is \<open>Math.pow(x, 2)\<close>, \<open>d_gt\<close> and \<open>d_eq\<close> are \<open>>\<close> and \<open>==\<close>.
\<close>

subsection \<open>Maps with values of any type\<close>

text \<open>\<open>m.keys\<close>, \<open>m(key)\<close> and the two frequencies, as above.\<close>

definition keys_on :: "(int, 'd) alist \<Rightarrow> int list" where
  "keys_on m = map fst (DAList.impl_of m)"

definition apply_on :: "(int, 'd) alist \<Rightarrow> int \<Rightarrow> 'd option" where
  "apply_on m key = map_of (DAList.impl_of m) key"

definition keyFreq_on :: "bool \<Rightarrow> (int, 'd) alist \<Rightarrow> int" where
  "keyFreq_on isFiltered m = (if isFiltered then int (length (keys_on m)) else 1)"

definition windowFreq_on :: "bool \<Rightarrow> int \<Rightarrow> int \<Rightarrow> (int, 'd) alist \<Rightarrow> int" where
  "windowFreq_on isFiltered start stop m =
     (if isFiltered then int (length (filter (inWindow start stop) (keys_on m))) else 1)"

subsection \<open>\<open>compareTimeSeries(m1, m2, isFiltered)\<close>\<close>

fun weightLoop_on ::
  "('d, 'z) sim_arith_scheme \<Rightarrow> (int, 'd) alist \<Rightarrow> (int, 'd) alist \<Rightarrow> int \<Rightarrow> int \<Rightarrow>
   int list \<Rightarrow> 'd \<Rightarrow> 'd option" where
  "weightLoop_on A m1 m2 m1Freq m2Freq [] weight = Some weight"
| "weightLoop_on A m1 m2 m1Freq m2Freq (key # commonKeys) weight =
     (case apply_on m1 key of
        None \<Rightarrow> None
      | Some v1 \<Rightarrow>
          (case apply_on m2 key of
             None \<Rightarrow> None
           | Some v2 \<Rightarrow>
               let value1 = d_div A v1 (of_Int A m1Freq);
                   value2 = d_div A v2 (of_Int A m2Freq);
                   similarity = d_div A (d_min A value1 value2) (d_max A value1 value2)
               in weightLoop_on A m1 m2 m1Freq m2Freq commonKeys
                    (if d_gt A similarity (lit_half A) then d_add A weight similarity
                     else d_sub A weight similarity)))"

definition compareTimeSeries_on ::
  "('d, 'z) sim_arith_scheme \<Rightarrow> (int, 'd) alist \<Rightarrow> (int, 'd) alist \<Rightarrow> bool \<Rightarrow> 'd option" where
  "compareTimeSeries_on A m1 m2 isFiltered =
     (let commonKeys = intersect (keys_on m2) (keys_on m1);
          m1Freq = keyFreq_on isFiltered m1;
          m2Freq = keyFreq_on isFiltered m2
      in if commonKeys = [] then Some (of_Int A 0)
         else weightLoop_on A m1 m2 m1Freq m2Freq commonKeys (lit_zero A))"

subsection \<open>\<open>compareTimeSeries(m1, m2, start, stop, upperBoundActivationsNumber, isFiltered, lambda)\<close>\<close>

fun weightLoopWindow_on ::
  "('d, 'z) sim_arith_scheme \<Rightarrow> (int, 'd) alist \<Rightarrow> (int, 'd) alist \<Rightarrow> int \<Rightarrow> int \<Rightarrow> 'd \<Rightarrow>
   int list \<Rightarrow> 'd \<Rightarrow> 'd option" where
  "weightLoopWindow_on A m1Filtered m2Filtered m1Freq m2Freq lambda [] weight = Some weight"
| "weightLoopWindow_on A m1Filtered m2Filtered m1Freq m2Freq lambda (key # commonKeys) weight =
     (case apply_on m1Filtered key of
        None \<Rightarrow> None
      | Some v1 \<Rightarrow>
          (case apply_on m2Filtered key of
             None \<Rightarrow> None
           | Some v2 \<Rightarrow>
               let value1 = d_div A v1 (of_Int A m1Freq);
                   value2 = d_div A v2 (of_Int A m2Freq);
                   similarity = d_div A (d_min A value1 value2) (d_max A value1 value2)
               in weightLoopWindow_on A m1Filtered m2Filtered m1Freq m2Freq lambda commonKeys
                    (if d_gt A similarity lambda then d_add A weight similarity
                     else d_add A weight (lit_zero A))))"

definition compareTimeSeriesWindow_on ::
  "('d, 'z) sim_arith_scheme \<Rightarrow> (int, 'd) alist \<Rightarrow> (int, 'd) alist \<Rightarrow> int \<Rightarrow> int \<Rightarrow> int \<Rightarrow>
   bool \<Rightarrow> 'd \<Rightarrow> 'd option" where
  "compareTimeSeriesWindow_on A m1 m2 start stop upperBoundActivationsNumber isFiltered lambda =
     (let m1Filtered =
            DAList.filter (\<lambda>pair. d_gt A (snd pair) (of_Int A upperBoundActivationsNumber)) m1;
          m2Filtered =
            DAList.filter (\<lambda>pair. d_gt A (snd pair) (of_Int A upperBoundActivationsNumber)) m2;
          commonKeys =
            filter (inWindow start stop) (intersect (keys_on m2Filtered) (keys_on m1Filtered));
          m1Freq = windowFreq_on isFiltered start stop m1Filtered;
          m2Freq = windowFreq_on isFiltered start stop m2Filtered
      in if commonKeys = [] then Some (of_Int A 0)
         else weightLoopWindow_on A m1Filtered m2Filtered m1Freq m2Freq lambda commonKeys
                (lit_zero A))"

subsection \<open>\<open>pearsonCorrelation(m1, m2, start, stop, isFiltered)\<close>\<close>

definition commonPart_on ::
  "('d, 'z) sim_arith_scheme \<Rightarrow> (int, 'd) alist \<Rightarrow> int list \<Rightarrow> int \<Rightarrow> (int \<times> 'd) list" where
  "commonPart_on A m commonKeys' mFreq =
     map (\<lambda>(k, v). (k, d_div A v (of_Int A mFreq)))
         (filter (\<lambda>(k, v). k \<in> set commonKeys') (DAList.impl_of m))"

fun pSumLoop_on ::
  "'d arith \<Rightarrow> (int \<times> 'd) list \<Rightarrow> (int \<times> 'd) list \<Rightarrow> int list \<Rightarrow> 'd \<Rightarrow> 'd option" where
  "pSumLoop_on A m1Common m2Common [] accum = Some accum"
| "pSumLoop_on A m1Common m2Common (element # commonKeys') accum =
     (case map_of m1Common element of
        None \<Rightarrow> None
      | Some a \<Rightarrow>
          (case map_of m2Common element of
             None \<Rightarrow> None
           | Some b \<Rightarrow>
               pSumLoop_on A m1Common m2Common commonKeys' (d_add A accum (d_mul A a b))))"

definition pearsonBlock_on ::
  "'d arith \<Rightarrow> (int, 'd) alist \<Rightarrow> (int, 'd) alist \<Rightarrow> int \<Rightarrow> int \<Rightarrow> int list \<Rightarrow> nat \<Rightarrow> nat \<Rightarrow>
   'd \<Rightarrow> 'd option" where
  "pearsonBlock_on A m1 m2 m1Freq m2Freq commonKeys n t sum_acc =
     (let commonKeys' = slice t (t + 24) commonKeys;
          m1Common = commonPart_on A m1 commonKeys' m1Freq;
          m2Common = commonPart_on A m2 commonKeys' m2Freq;
          sum1 = foldl (d_add A) (lit_zero A) (map snd m1Common);
          sum2 = foldl (d_add A) (lit_zero A) (map snd m2Common);
          sum1Sq = foldl (\<lambda>acc v. d_add A acc (d_pow2 A v)) (lit_zero A) (map snd m1Common);
          sum2Sq = foldl (\<lambda>acc v. d_add A acc (d_pow2 A v)) (lit_zero A) (map snd m2Common)
      in case pSumLoop_on A m1Common m2Common commonKeys' (lit_zero A) of
           None \<Rightarrow> None
         | Some pSum \<Rightarrow>
             let numerator = d_sub A pSum (d_div A (d_mul A sum1 sum2) (of_Int A (int n)));
                 denominator =
                   d_sqrt A
                     (d_mul A (d_sub A sum1Sq (d_div A (d_pow2 A sum1) (of_Int A (int n))))
                              (d_sub A sum2Sq (d_div A (d_pow2 A sum2) (of_Int A (int n)))))
             in Some (if d_eq A denominator (of_Int A 0) then sum_acc
                      else d_add A sum_acc (d_div A numerator denominator)))"

function pearsonLoop_on ::
  "'d arith \<Rightarrow> (int, 'd) alist \<Rightarrow> (int, 'd) alist \<Rightarrow> int \<Rightarrow> int \<Rightarrow> int list \<Rightarrow> nat \<Rightarrow> nat \<Rightarrow>
   'd \<Rightarrow> 'd option" where
  "pearsonLoop_on A m1 m2 m1Freq m2Freq commonKeys n t sum_acc =
     (if t < length commonKeys
      then (case pearsonBlock_on A m1 m2 m1Freq m2Freq commonKeys n t sum_acc of
              None \<Rightarrow> None
            | Some sum_next \<Rightarrow> pearsonLoop_on A m1 m2 m1Freq m2Freq commonKeys n (t + 24) sum_next)
      else Some sum_acc)"
  by pat_completeness auto
termination
  by (relation "measure (\<lambda>(A, m1, m2, m1Freq, m2Freq, commonKeys, n, t, sum_acc).
        length commonKeys - t)") auto

definition pearsonCorrelation_on ::
  "'d arith \<Rightarrow> (int, 'd) alist \<Rightarrow> (int, 'd) alist \<Rightarrow> int \<Rightarrow> int \<Rightarrow> bool \<Rightarrow> 'd option" where
  "pearsonCorrelation_on A m1 m2 start stop isFiltered =
     (let commonKeys = sort (filter (inWindow start stop) (intersect (keys_on m2) (keys_on m1)));
          n = length commonKeys
      in if n = 0 then Some (lit_zero A)
         else let m1Freq = windowFreq_on isFiltered start stop m1;
                  m2Freq = windowFreq_on isFiltered start stop m2
              in pearsonLoop_on A m1 m2 m1Freq m2Freq commonKeys n 0 (lit_zero A))"

subsection \<open>What the windowed similarity and the correlation are specified to compute\<close>

text \<open>\<open>a[key]\<close>, read at keys of the series only, and \<open>sim = min(v1, v2) / max(v1, v2)\<close>.\<close>

definition value_on :: "('d, 'z) sim_arith_scheme \<Rightarrow> (int, 'd) alist \<Rightarrow> int \<Rightarrow> 'd" where
  "value_on A m key = (case apply_on m key of Some v \<Rightarrow> v | None \<Rightarrow> lit_zero A)"

definition sim_on :: "('d, 'z) sim_arith_scheme \<Rightarrow> 'd \<Rightarrow> 'd \<Rightarrow> 'd" where
  "sim_on A v1 v2 = d_div A (d_min A v1 v2) (d_max A v1 v2)"

text \<open>
  The series reduced to the keys whose value exceeds the lower bound, and the keys of a
  series strictly inside \<open>(start, stop)\<close>, in the order of the series.
\<close>

definition exceeds_on :: "('d, 'z) sim_arith_scheme \<Rightarrow> int \<Rightarrow> (int, 'd) alist \<Rightarrow> (int, 'd) alist" where
  "exceeds_on A lowerBound m = DAList.filter (\<lambda>(k, v). d_gt A v (of_Int A lowerBound)) m"

definition window_keys_on :: "int \<Rightarrow> int \<Rightarrow> (int, 'd) alist \<Rightarrow> int list" where
  "window_keys_on start stop m = [k \<leftarrow> keys_on m. start < k \<and> k < stop]"

definition divisor_on ::
  "('d, 'z) sim_arith_scheme \<Rightarrow> bool \<Rightarrow> int \<Rightarrow> int \<Rightarrow> (int, 'd) alist \<Rightarrow> 'd" where
  "divisor_on A isFiltered start stop m =
     of_Int A (if isFiltered then int (length (window_keys_on start stop m)) else 1)"

text \<open>
  The windowed similarity: the common keys are those of the two reduced series strictly
  inside \<open>(start, stop)\<close>; their terms are added one after the other, starting from \<open>0.0\<close>,
  in the order in which the second series lists them; the term of a key is its \<open>sim\<close>
  when \<open>sim > lambda\<close>, and \<open>0.0\<close> otherwise. Without a common key the result is \<open>0\<close>.
\<close>

definition spec_window_similarity_on ::
  "('d, 'z) sim_arith_scheme \<Rightarrow> (int, 'd) alist \<Rightarrow> (int, 'd) alist \<Rightarrow> int \<Rightarrow> int \<Rightarrow> int \<Rightarrow>
   bool \<Rightarrow> 'd \<Rightarrow> 'd" where
  "spec_window_similarity_on A a b start stop lowerBound isFiltered lambda =
     (let a' = exceeds_on A lowerBound a;
          b' = exceeds_on A lowerBound b;
          freqA = divisor_on A isFiltered start stop a';
          freqB = divisor_on A isFiltered start stop b';
          commonKeys = [k \<leftarrow> window_keys_on start stop b'. k \<in> set (keys_on a')]
      in if commonKeys = [] then of_Int A 0
         else foldl (\<lambda>weight key.
                       let sim = sim_on A (d_div A (value_on A a' key) freqA)
                                          (d_div A (value_on A b' key) freqB)
                       in d_add A weight (if d_gt A sim lambda then sim else lit_zero A))
                    (lit_zero A) commonKeys)"

text \<open>
  The common keys of the correlation: those of both series strictly inside
  \<open>(start, stop)\<close>, ascending.
\<close>

definition common_keys_on :: "(int, 'd) alist \<Rightarrow> (int, 'd) alist \<Rightarrow> int \<Rightarrow> int \<Rightarrow> int list" where
  "common_keys_on a b start stop =
     sorted_list_of_set (set (window_keys_on start stop a) \<inter> set (window_keys_on start stop b))"

text \<open>
  The normalised values of a series at the keys of a block, in the order of the series.
\<close>

definition block_values_on ::
  "('d, 'z) sim_arith_scheme \<Rightarrow> (int, 'd) alist \<Rightarrow> 'd \<Rightarrow> int list \<Rightarrow> 'd list" where
  "block_values_on A m freq block =
     map (\<lambda>k. d_div A (value_on A m k) freq) [k \<leftarrow> keys_on m. k \<in> set block]"

text \<open>
  The running sum after one block. \<open>\<Sigma>v1\<close>, \<open>\<Sigma>v2\<close>, \<open>\<Sigma>v1\<^sup>2\<close> and \<open>\<Sigma>v2\<^sup>2\<close> are added up
  from \<open>0.0\<close> in the order of the respective series, \<open>\<Sigma>(v1 v2)\<close> in the order of the
  block; \<open>n\<close> is the sample size, the same for every block.
  \<open>numerator = \<Sigma>(v1 v2) - (\<Sigma>v1 \<Sigma>v2)/n\<close>,
  \<open>denominator = sqrt((\<Sigma>v1\<^sup>2 - (\<Sigma>v1)\<^sup>2/n) (\<Sigma>v2\<^sup>2 - (\<Sigma>v2)\<^sup>2/n))\<close>. The block adds
  \<open>numerator/denominator\<close> to the running sum, and nothing when the denominator equals 0.
\<close>

definition spec_block_on ::
  "'d arith \<Rightarrow> (int, 'd) alist \<Rightarrow> (int, 'd) alist \<Rightarrow> 'd \<Rightarrow> 'd \<Rightarrow> nat \<Rightarrow> 'd \<Rightarrow> int list \<Rightarrow> 'd" where
  "spec_block_on A a b freqA freqB n sum_acc block =
     (let va = block_values_on A a freqA block;
          vb = block_values_on A b freqB block;
          s1 = foldl (d_add A) (lit_zero A) va;
          s2 = foldl (d_add A) (lit_zero A) vb;
          s1Sq = foldl (\<lambda>s v. d_add A s (d_pow2 A v)) (lit_zero A) va;
          s2Sq = foldl (\<lambda>s v. d_add A s (d_pow2 A v)) (lit_zero A) vb;
          p = foldl (\<lambda>s k. d_add A s (d_mul A (d_div A (value_on A a k) freqA)
                                               (d_div A (value_on A b k) freqB)))
                    (lit_zero A) block;
          numerator = d_sub A p (d_div A (d_mul A s1 s2) (of_Int A (int n)));
          denominator =
            d_sqrt A (d_mul A (d_sub A s1Sq (d_div A (d_pow2 A s1) (of_Int A (int n))))
                              (d_sub A s2Sq (d_div A (d_pow2 A s2) (of_Int A (int n)))))
      in if d_eq A denominator (of_Int A 0) then sum_acc
         else d_add A sum_acc (d_div A numerator denominator))"

text \<open>
  The correlation: the common keys are cut into consecutive blocks of at most 24; \<open>n\<close> is
  the number of all common keys; the running sum starts at \<open>0.0\<close> and takes the blocks in
  order.
\<close>

definition spec_pearson_on ::
  "'d arith \<Rightarrow> (int, 'd) alist \<Rightarrow> (int, 'd) alist \<Rightarrow> int \<Rightarrow> int \<Rightarrow> bool \<Rightarrow> 'd" where
  "spec_pearson_on A a b start stop isFiltered =
     (let commonKeys = common_keys_on a b start stop;
          n = length commonKeys;
          freqA = divisor_on A isFiltered start stop a;
          freqB = divisor_on A isFiltered start stop b
      in foldl (spec_block_on A a b freqA freqB n) (lit_zero A) (chunks 24 commonKeys))"

subsection \<open>The exact arithmetic as an instance\<close>

definition exact :: "double arith" where
  "exact =
     \<lparr>lit_zero = Fin 0, lit_half = Fin (1 / 2), of_Int = toDouble, d_add = (+), d_sub = dsub,
      d_div = ddiv, d_min = dmin, d_max = dmax, d_gt = dgt,
      d_mul = dmul, d_sqrt = dsqrt, d_pow2 = dpow2, d_eq = deq\<rparr>"

subsection \<open>The binary64 arithmetic of the similarity functions\<close>

text \<open>
  A \<open>Double\<close> as the JVM has it: \<open>Val x\<close> is the finite value \<open>x\<close>, with \<open>Val 0\<close> for
  \<open>+0.0\<close>; \<open>MinusZero\<close> is \<open>-0.0\<close>. The result of an operation is the exact result rounded
  to the nearest value with a 53-bit significand, ties to the even significand, with
  gradual underflow below \<open>2^-1022\<close> and overflow to an infinity from \<open>2^1024\<close>.
  The operations return such values; the series of the examples hold small integers,
  which are such values too.
\<close>

datatype f64 = Val real | MinusZero | PlusInf | MinusInf | QNaN

text \<open>\<open>2^e\<close> for an integer \<open>e\<close>.\<close>

definition pow2 :: "int \<Rightarrow> real" where
  "pow2 e = (if 0 \<le> e then 2 ^ nat e else 1 / 2 ^ nat (- e))"

text \<open>
  The binary exponent of a positive \<open>a\<close>: the \<open>e\<close> with \<open>2^e \<le> a < 2^(e+1)\<close>, from the
  number of bits of the integer part of \<open>a\<close>, or of \<open>1/a\<close> when \<open>a < 1\<close>.
\<close>

definition expo :: "real \<Rightarrow> int" where
  "expo a =
     (if 1 \<le> a then int (floorlog 2 (nat \<lfloor>a\<rfloor>)) - 1
      else - int (floorlog 2 (nat (\<lceil>1 / a\<rceil> - 1))))"

text \<open>The integer nearest to \<open>m \<ge> 0\<close>, the even one of two that are equally near.\<close>

definition round_even :: "real \<Rightarrow> int" where
  "round_even m =
     (let f = \<lfloor>m\<rfloor>; d = m - of_int f
      in if d < 1 / 2 then f else if 1 / 2 < d then f + 1 else if even f then f else f + 1)"

text \<open>
  Rounding of an exact result \<open>x\<close>. The unit in the last place is \<open>2^(e - 52)\<close>, where \<open>e\<close> is
  the exponent of \<open>x\<close>, and at least \<open>-1022\<close>. A nonzero \<open>x\<close> that rounds to zero keeps its
  sign, and a rounded magnitude of \<open>2^1024\<close> or more is an infinity.
\<close>

definition rnd :: "real \<Rightarrow> f64" where
  "rnd x =
     (if x = 0 then Val 0
      else let a = \<bar>x\<bar>;
               u = pow2 (max (expo a) (- 1022) - 52);
               r = round_even (a / u);
               y = of_int r * u
           in if r = 0 then (if x < 0 then MinusZero else Val 0)
              else if 1024 \<le> expo y then (if x < 0 then MinusInf else PlusInf)
              else Val (if x < 0 then - y else y))"

fun is_neg :: "f64 \<Rightarrow> bool" where
  "is_neg (Val x) = (x < 0)"
| "is_neg MinusZero = True"
| "is_neg MinusInf = True"
| "is_neg a = False"

fun is_zero :: "f64 \<Rightarrow> bool" where
  "is_zero (Val x) = (x = 0)"
| "is_zero MinusZero = True"
| "is_zero a = False"

fun is_inf :: "f64 \<Rightarrow> bool" where
  "is_inf PlusInf = True"
| "is_inf MinusInf = True"
| "is_inf a = False"

text \<open>The value of a finite \<open>Double\<close>.\<close>

fun val :: "f64 \<Rightarrow> real" where
  "val (Val x) = x"
| "val a = 0"

definition signed_zero :: "bool \<Rightarrow> f64" where
  "signed_zero negative = (if negative then MinusZero else Val 0)"

definition signed_inf :: "bool \<Rightarrow> f64" where
  "signed_inf negative = (if negative then MinusInf else PlusInf)"

text \<open>
  \<open>a + b\<close>. The sum of two infinities of opposite sign is NaN; an exact sum that is zero
  is \<open>+0.0\<close>, except \<open>-0.0 + -0.0\<close>.
\<close>

definition f_add :: "f64 \<Rightarrow> f64 \<Rightarrow> f64" where
  "f_add a b =
     (if a = QNaN \<or> b = QNaN then QNaN
      else if is_inf a then (if is_inf b \<and> a \<noteq> b then QNaN else a)
      else if is_inf b then b
      else if a = MinusZero \<and> b = MinusZero then MinusZero
      else if val a + val b = 0 then Val 0
      else rnd (val a + val b))"

fun f_neg :: "f64 \<Rightarrow> f64" where
  "f_neg (Val x) = (if x = 0 then MinusZero else Val (- x))"
| "f_neg MinusZero = Val 0"
| "f_neg PlusInf = MinusInf"
| "f_neg MinusInf = PlusInf"
| "f_neg QNaN = QNaN"

text \<open>\<open>a - b\<close> is \<open>a + (-b)\<close>.\<close>

definition f_sub :: "f64 \<Rightarrow> f64 \<Rightarrow> f64" where
  "f_sub a b = f_add a (f_neg b)"

text \<open>
  \<open>a / b\<close>. The sign of the result is the product of the signs, also for a zero or an
  infinite result; \<open>0/0\<close> and an infinity over an infinity are NaN.
\<close>

definition f_div :: "f64 \<Rightarrow> f64 \<Rightarrow> f64" where
  "f_div a b =
     (if a = QNaN \<or> b = QNaN then QNaN
      else let negative = (is_neg a \<noteq> is_neg b)
           in if is_inf a then (if is_inf b then QNaN else signed_inf negative)
              else if is_inf b then signed_zero negative
              else if is_zero b then (if is_zero a then QNaN else signed_inf negative)
              else if is_zero a then signed_zero negative
              else rnd (val a / val b))"

text \<open>\<open>a < b\<close> and \<open>a > b\<close>: false when an operand is NaN; the two zeros are equal.\<close>

definition f_lt :: "f64 \<Rightarrow> f64 \<Rightarrow> bool" where
  "f_lt a b =
     (if a = QNaN \<or> b = QNaN then False
      else if a = MinusInf then b \<noteq> MinusInf
      else if b = MinusInf then False
      else if b = PlusInf then a \<noteq> PlusInf
      else if a = PlusInf then False
      else val a < val b)"

definition f_gt :: "f64 \<Rightarrow> f64 \<Rightarrow> bool" where
  "f_gt a b = f_lt b a"

text \<open>
  \<open>min\<close> and \<open>max\<close> of \<open>breeze.linalg\<close> on two \<open>Double\<close>s, that is \<open>java.lang.Math.min\<close> and
  \<open>max\<close>: NaN when an operand is NaN, and \<open>-0.0\<close> below \<open>+0.0\<close>.
\<close>

definition f_min :: "f64 \<Rightarrow> f64 \<Rightarrow> f64" where
  "f_min a b =
     (if a = QNaN \<or> b = QNaN then QNaN
      else if is_zero a \<and> is_zero b
           then (if a = MinusZero \<or> b = MinusZero then MinusZero else Val 0)
      else if f_lt b a then b else a)"

definition f_max :: "f64 \<Rightarrow> f64 \<Rightarrow> f64" where
  "f_max a b =
     (if a = QNaN \<or> b = QNaN then QNaN
      else if is_zero a \<and> is_zero b
           then (if a = MinusZero \<and> b = MinusZero then MinusZero else Val 0)
      else if f_lt a b then b else a)"

text \<open>An \<open>Int\<close> has at most 32 bits and widens without rounding.\<close>

definition f_of_Int :: "int \<Rightarrow> f64" where
  "f_of_Int i = Val (of_int i)"

definition binary64 :: "f64 sim_arith" where
  "binary64 =
     \<lparr>lit_zero = Val 0, lit_half = Val (1 / 2), of_Int = f_of_Int, d_add = f_add, d_sub = f_sub,
      d_div = f_div, d_min = f_min, d_max = f_max, d_gt = f_gt\<rparr>"

subsection \<open>Small maps\<close>

text \<open>
  \<open>Map(k1 -> v1, ..., kn -> vn)\<close>: the entries are inserted one after the other. A key
  inserted again keeps its place and takes the new value, and the map is traversed in the
  order of the first insertions, as a Scala map of up to four entries is.
\<close>

definition series_of :: "(int \<times> 'd) list \<Rightarrow> (int, 'd) alist" where
  "series_of entries = foldl (\<lambda>m (k, v). DAList.update k v m) DAList.empty entries"

declare pearsonLoop_on.simps [simp del]

section \<open>Properties of the edge list\<close>

subsection \<open>The loop appends the edges of each message\<close>

lemma update_fresh: "k \<notin> fst ` set xs \<Longrightarrow> AList.update k v xs = xs @ [(k, v)]"
  by (induction xs) auto

lemma add_link_append: "labels_ok st \<Longrightarrow> add_link r st = append_rows [r] st"
proof -
  assume "labels_ok st"
  then have "links_index st \<notin> fst ` set (links st)"
    by (metis labels_ok_def atLeastLessThan_iff less_irrefl set_map set_upt)
  then show ?thesis
    by (simp add: add_link_def append_rows_def update_fresh)
qed

lemma labels_ok_append_rows: "labels_ok st \<Longrightarrow> labels_ok (append_rows rs st)"
proof -
  assume a: "labels_ok st"
  have "[0 ..< links_index st + length rs] =
        [0 ..< links_index st] @ [links_index st ..< links_index st + length rs]"
    by (rule upt_add_eq_append) simp
  with a show ?thesis
    by (simp add: labels_ok_def append_rows_def)
qed

lemma append_rows_Nil: "append_rows [] st = st"
  by (simp add: append_rows_def)

lemma append_rows_append: "append_rows rs2 (append_rows rs1 st) = append_rows (rs1 @ rs2) st"
proof -
  let ?i = "links_index st"
  have u: "[?i ..< ?i + length rs1 + length rs2] =
           [?i ..< ?i + length rs1] @ [?i + length rs1 ..< ?i + length rs1 + length rs2]"
    by (rule upt_add_eq_append) simp
  have "zip [?i ..< ?i + length rs1 + length rs2] (rs1 @ rs2) =
        zip [?i ..< ?i + length rs1] rs1 @
        zip [?i + length rs1 ..< ?i + length rs1 + length rs2] rs2"
    unfolding u by (rule zip_append) simp
  then show ?thesis
    by (simp add: append_rows_def add.assoc)
qed

lemma add_addresses_append:
  "labels_ok st \<Longrightarrow>
   add_addresses date m_from addresses st =
     append_rows (map (\<lambda>address. (date, m_from, address))
                      (filter (\<lambda>address. address \<noteq> []) addresses)) st"
proof (induction addresses arbitrary: st)
  case Nil
  then show ?case by (simp add: append_rows_Nil)
next
  case (Cons a as)
  show ?case
  proof (cases "a = []")
    case True
    with Cons show ?thesis by simp
  next
    case False
    have ok: "labels_ok (append_rows [(date, m_from, a)] st)"
      using Cons.prems by (rule labels_ok_append_rows)
    from False Cons.prems show ?thesis
      by (simp add: add_link_append Cons.IH [OF ok] append_rows_append)
  qed
qed




lemma body_spec:
  "labels_ok st \<Longrightarrow>
   body message st =
     (if date_unmatched message then Inl AttributeError
      else Inr (append_rows (spec_message_edges message) st))"
  by (simp add: body_def spec_message_edges_def spec_extract_def spec_recipients_def split_def
      date_unmatched_def add_addresses_append add_link_append append_rows_Nil Let_def
      split: option.splits)

lemma loop_spec:
  "labels_ok st \<Longrightarrow>
   loop data st =
     (if list_ex date_unmatched data then Inl AttributeError
      else Inr (append_rows (spec_edges data) st))"
proof (induction data arbitrary: st)
  case Nil
  then show ?case by (simp add: append_rows_Nil spec_edges_def)
next
  case (Cons m data)
  have ok: "labels_ok (append_rows (spec_message_edges m) st)"
    using Cons.prems by (rule labels_ok_append_rows)
  from Cons.prems show ?case
    by (simp add: body_spec Cons.IH [OF ok] append_rows_append spec_edges_def)
qed

lemma build_spec:
  "build data = (if list_ex date_unmatched data then Inl AttributeError else Inr (spec_edges data))"
proof -
  have ok: "labels_ok \<lparr>links = [], links_index = 0\<rparr>"
    by (simp add: labels_ok_def)
  have z: "\<And>rs :: row list. map snd (zip [0..<length rs] rs) = rs"
    by (simp add: map_snd_zip)
  show ?thesis
    by (simp add: build_def loop_spec [OF ok] append_rows_def z)
qed

lemma build_append: "build (xs @ ys) = result_append (build xs) (build ys)"
  by (simp add: build_spec result_append_def spec_edges_def)

subsection \<open>A message without a \<open>Date\<close> line\<close>

text \<open>
  C1. The specification asks that a record with a missing \<open>From\<close>, \<open>To\<close> or \<open>Date\<close> header
  be dropped and the batch continue. The loop guards \<open>mf\<close> and \<open>me\<close> but reads
  \<open>date.group()\<close> unguarded: a message whose \<open>From\<close> and \<open>To\<close> lines match and that has no
  \<open>Date\<close> line raises \<open>AttributeError\<close>, alone and in the middle of a batch of well-formed
  messages, where the specified result is no edge for that message and the edges of the
  other two.
\<close>

theorem missing_date_raises:
  "build [''From: s@x.com\<newline>To: a@x.com\<newline>''] = Inl AttributeError \<and>
   spec_edges [''From: s@x.com\<newline>To: a@x.com\<newline>''] = [] \<and>
   build [''From: s@x.com\<newline>To: a@x.com\<newline>Date: Mon, 14 May 2001\<newline>'',
          ''From: s@x.com\<newline>To: a@x.com\<newline>'',
          ''From: t@x.com\<newline>To: b@x.com\<newline>Date: Tue, 15 May 2001\<newline>'']
     = Inl AttributeError \<and>
   spec_edges [''From: s@x.com\<newline>To: a@x.com\<newline>Date: Mon, 14 May 2001\<newline>'',
               ''From: s@x.com\<newline>To: a@x.com\<newline>'',
               ''From: t@x.com\<newline>To: b@x.com\<newline>Date: Tue, 15 May 2001\<newline>'']
     = [(''Mon, 14 May 2001'', ''s@x.com'', ''a@x.com''),
        (''Tue, 15 May 2001'', ''t@x.com'', ''b@x.com'')]"
  by code_simp

subsection \<open>Fan-out of the recipient list\<close>

text \<open>
  C8. For a message in which the three patterns are found, the loop emits one edge per
  recipient, in the order of the recipients, all with the sender and the date of the
  message; the recipients are the \<open>To\<close> value split on \<open>", "\<close> when it contains a comma and
  the value itself otherwise, without the empty entries. When the \<open>To\<close> line is
  \<open>To: a@x.com, b@x.com, c@x.com\<close> these are exactly three edges, to \<open>a@x.com\<close>, \<open>b@x.com\<close>
  and \<open>c@x.com\<close> in this order.
\<close>
theorem three_recipients_three_edges:
  assumes "search fromRegex message = Some mfg"
    and "search toRegex message = Some meg"
    and "search dateRegex message = Some dg"
  shows
    "let date = replace [CHR 0x0A] [] (replace ''Date: '' [] dg);
         m_from = replace ''From: '' [] mfg;
         m_to = replace [CHR 0x0A] [] (replace ''To: '' [] meg)
     in build [message] = Inr (map (\<lambda>address. (date, m_from, address)) (spec_recipients m_to)) \<and>
        (meg = ''To: a@x.com, b@x.com, c@x.com\<newline>'' \<longrightarrow>
           build [message] =
             Inr [(date, m_from, ''a@x.com''), (date, m_from, ''b@x.com''),
                  (date, m_from, ''c@x.com'')])"
proof -
  have r: "spec_recipients
             (replace [CHR 0x0A] [] (replace ''To: '' [] ''To: a@x.com, b@x.com, c@x.com\<newline>''))
           = [''a@x.com'', ''b@x.com'', ''c@x.com'']"
    by code_simp
  have b: "build [message] =
      Inr (map (\<lambda>address. (replace [CHR 0x0A] [] (replace ''Date: '' [] dg),
                             replace ''From: '' [] mfg, address))
               (spec_recipients (replace [CHR 0x0A] [] (replace ''To: '' [] meg))))"
    using assms
    by (simp add: build_spec date_unmatched_def spec_edges_def spec_message_edges_def
        spec_extract_def)
  show ?thesis
    unfolding Let_def
  proof (intro conjI impI)
    show "build [message] =
      Inr (map (\<lambda>address. (replace [CHR 0x0A] [] (replace ''Date: '' [] dg),
                             replace ''From: '' [] mfg, address))
               (spec_recipients (replace [CHR 0x0A] [] (replace ''To: '' [] meg))))"
      by (rule b)
  next
    assume "meg = ''To: a@x.com, b@x.com, c@x.com\<newline>''"
    then show "build [message] =
      Inr [(replace [CHR 0x0A] [] (replace ''Date: '' [] dg), replace ''From: '' [] mfg, ''a@x.com''),
           (replace [CHR 0x0A] [] (replace ''Date: '' [] dg), replace ''From: '' [] mfg, ''b@x.com''),
           (replace [CHR 0x0A] [] (replace ''Date: '' [] dg), replace ''From: '' [] mfg, ''c@x.com'')]"
      using b r by simp
  qed
qed

theorem three_recipients_three_edges_witness:
  "search fromRegex ''Date: Mon, 14 May 2001 16:39:00 -0700 (PDT)\<newline>From: s@x.com\<newline>To: a@x.com, b@x.com, c@x.com\<newline>Subject: x\<newline>''
     = Some ''From: s@x.com'' \<and>
   search toRegex ''Date: Mon, 14 May 2001 16:39:00 -0700 (PDT)\<newline>From: s@x.com\<newline>To: a@x.com, b@x.com, c@x.com\<newline>Subject: x\<newline>''
     = Some ''To: a@x.com, b@x.com, c@x.com\<newline>'' \<and>
   search dateRegex ''Date: Mon, 14 May 2001 16:39:00 -0700 (PDT)\<newline>From: s@x.com\<newline>To: a@x.com, b@x.com, c@x.com\<newline>Subject: x\<newline>''
     = Some ''Date: Mon, 14 May 2001 16:39:00 -0700 (PDT)\<newline>'' \<and>
   build [''Date: Mon, 14 May 2001 16:39:00 -0700 (PDT)\<newline>From: s@x.com\<newline>To: a@x.com, b@x.com, c@x.com\<newline>Subject: x\<newline>'']
     = Inr [(''Mon, 14 May 2001 16:39:00 -0700 (PDT)'', ''s@x.com'', ''a@x.com''),
            (''Mon, 14 May 2001 16:39:00 -0700 (PDT)'', ''s@x.com'', ''b@x.com''),
            (''Mon, 14 May 2001 16:39:00 -0700 (PDT)'', ''s@x.com'', ''c@x.com'')]"
proof -
  let ?m = "''Date: Mon, 14 May 2001 16:39:00 -0700 (PDT)\<newline>From: s@x.com\<newline>To: a@x.com, b@x.com, c@x.com\<newline>Subject: x\<newline>''"
  have f: "search fromRegex ?m = Some ''From: s@x.com''"
    by code_simp
  have t: "search toRegex ?m = Some ''To: a@x.com, b@x.com, c@x.com\<newline>''"
    by code_simp
  have d: "search dateRegex ?m = Some ''Date: Mon, 14 May 2001 16:39:00 -0700 (PDT)\<newline>''"
    by code_simp
  have rd: "replace [CHR 0x0A] [] (replace ''Date: '' [] ''Date: Mon, 14 May 2001 16:39:00 -0700 (PDT)\<newline>'')
            = ''Mon, 14 May 2001 16:39:00 -0700 (PDT)''"
    by code_simp
  have rf: "replace ''From: '' [] ''From: s@x.com'' = ''s@x.com''"
    by code_simp
  have rt: "spec_recipients
              (replace [CHR 0x0A] [] (replace ''To: '' [] ''To: a@x.com, b@x.com, c@x.com\<newline>''))
            = [''a@x.com'', ''b@x.com'', ''c@x.com'']"
    by code_simp
  from three_recipients_three_edges [OF f t d] rd rf rt f t d show ?thesis
    by (simp add: Let_def)
qed

subsection \<open>Concatenation of batches\<close>

text \<open>
  C9. Building the concatenation of two batches gives the concatenation of what the two
  batches give, an exception of either batch being the result on both sides; and the edges
  built from a batch are those of its messages in message order, each message's edges in
  the order of its recipients (unless a message has its sender and recipient lines and
  no date line, where the loop raises).
\<close>

theorem build_concatenation:
  "build (xs @ ys) = result_append (build xs) (build ys) \<and>
   build xs = (if list_ex date_unmatched xs then Inl AttributeError else Inr (spec_edges xs))"
  using build_append [of xs ys] build_spec [of xs] by simp

theorem build_concatenation_witness:
  "build ([''From: s@x.com\<newline>To: a@x.com, b@x.com\<newline>Date: 1\<newline>''] @
          [''From: t@x.com\<newline>To: c@x.com\<newline>Date: 2\<newline>''])
   = Inr ([(''1'', ''s@x.com'', ''a@x.com''), (''1'', ''s@x.com'', ''b@x.com'')] @
          [(''2'', ''t@x.com'', ''c@x.com'')])"
proof -
  have a: "build [''From: s@x.com\<newline>To: a@x.com, b@x.com\<newline>Date: 1\<newline>'']
           = Inr [(''1'', ''s@x.com'', ''a@x.com''), (''1'', ''s@x.com'', ''b@x.com'')]"
    by code_simp
  have b: "build [''From: t@x.com\<newline>To: c@x.com\<newline>Date: 2\<newline>'']
           = Inr [(''2'', ''t@x.com'', ''c@x.com'')]"
    by code_simp
  from build_concatenation [of "[''From: s@x.com\<newline>To: a@x.com, b@x.com\<newline>Date: 1\<newline>'']"
      "[''From: t@x.com\<newline>To: c@x.com\<newline>Date: 2\<newline>'']"] a b
  show ?thesis
    by (simp add: result_append_def)
qed

section \<open>Properties of the similarity and the correlation in exact arithmetic\<close>

subsection \<open>Arithmetic and maps\<close>

lemma ddiv_one: "ddiv a (toDouble 1) = a"
  by (cases a) (simp_all add: toDouble_def inf_of_sign_def)

lemma add_Fin_0: "a + Fin 0 = a"
  using add_0_right [of a] by (simp add: zero_double_def)

lemma Fin_0_add: "Fin 0 + a = a"
  using add_0_left [of a] by (simp add: zero_double_def)

lemma dmul_commute: "dmul a b = dmul b a"
  by (cases a; cases b) (simp_all add: mult.commute)

lemma distinct_keys: "distinct (keys m)"
  by (simp add: keys_def)

lemma apply_map_keys: "key \<in> set (keys m) \<Longrightarrow> apply_map m key = Some (value_at m key)"
proof -
  assume "key \<in> set (keys m)"
  then have "key \<in> fst ` set (DAList.impl_of m)"
    by (simp add: keys_def)
  then obtain v where "map_of (DAList.impl_of m) key = Some v"
    by (metis domD dom_map_of_conv_image_fst)
  then show ?thesis
    by (simp add: apply_map_def value_at_def)
qed

lemma set_intersect: "set (intersect s1 s2) = set s1 \<inter> set s2"
  by (auto simp: intersect_def)

lemma distinct_intersect: "distinct s1 \<Longrightarrow> distinct (intersect s1 s2)"
  by (simp add: intersect_def)

lemma weightLoop_sum:
  "set ks \<subseteq> set (keys m1) \<inter> set (keys m2) \<Longrightarrow>
   weightLoop m1 m2 f1 f2 ks w =
     Some (w + (\<Sum>key \<leftarrow> ks.
        let sim = spec_sim (ddiv (value_at m1 key) (toDouble f1))
                           (ddiv (value_at m2 key) (toDouble f2))
        in if dgt sim (Fin (1 / 2)) then sim else dneg sim))"
proof (induction ks arbitrary: w)
  case Nil
  then show ?case by (simp add: add_Fin_0 zero_double_def [symmetric])
next
  case (Cons k ks)
  then have k1: "apply_map m1 k = Some (value_at m1 k)"
    and k2: "apply_map m2 k = Some (value_at m2 k)"
    and rest: "set ks \<subseteq> set (keys m1) \<inter> set (keys m2)"
    by (simp_all add: apply_map_keys)
  show ?case
    by (simp add: k1 k2 Cons.IH [OF rest] Let_def spec_sim_def dsub_def add.assoc)
qed

lemma compareTimeSeries_sum:
  "compareTimeSeries m1 m2 isFiltered =
     Some (\<Sum>key \<in> set (keys m1) \<inter> set (keys m2).
        let sim = spec_sim (ddiv (value_at m1 key) (toDouble (keyFreq isFiltered m1)))
                           (ddiv (value_at m2 key) (toDouble (keyFreq isFiltered m2)))
        in if dgt sim (Fin (1 / 2)) then sim else dneg sim)"
proof -
  let ?ks = "intersect (keys m2) (keys m1)"
  have s: "set ?ks = set (keys m1) \<inter> set (keys m2)"
    by (auto simp: set_intersect)
  have d: "distinct ?ks"
    by (simp add: distinct_intersect distinct_keys)
  have sub: "set ?ks \<subseteq> set (keys m1) \<inter> set (keys m2)"
    using s by simp
  show ?thesis
  proof (cases "?ks = []")
    case True
    with s have "set (keys m1) \<inter> set (keys m2) = {}" by simp
    with True show ?thesis
      by (simp add: compareTimeSeries_def toDouble_def zero_double_def)
  next
    case False
    then show ?thesis
      by (simp add: compareTimeSeries_def Let_def weightLoop_sum [OF sub] Fin_0_add
          sum_list_distinct_conv_sum_set [OF d] s)
  qed
qed

subsection \<open>The unwindowed similarity as a sum\<close>



lemma spec_sim_self: "finite_nonzero v \<Longrightarrow> spec_sim v v = Fin 1"
  by (cases v) (simp_all add: spec_sim_def dmin_def dmax_def)

lemma sum_list_Fin_1: "(\<Sum>x \<leftarrow> xs. Fin 1) = Fin (real (length xs))"
  by (induction xs) (simp_all add: zero_double_def)

subsection \<open>A series compared with itself\<close>

text \<open>
  C5. The similarity of a series with itself, without normalisation, is the number of its
  keys. A series is sparse: it stores the buckets with activity, so every stored value is a
  positive count; the proof uses that the values are finite and not zero, which makes
  \<open>sim = 1.0\<close> at every key.
\<close>

theorem self_similarity_counts_keys:
  assumes "\<forall>key \<in> set (keys a). finite_nonzero (value_at a key)"
  shows "compareTimeSeries a a False = Some (toDouble (int (length (keys a))))"
proof -
  have "(\<Sum>key \<in> set (keys a).
          let sim = spec_sim (value_at a key) (value_at a key)
          in if dgt sim (Fin (1 / 2)) then sim else dneg sim)
        = (\<Sum>key \<in> set (keys a). Fin 1)"
    by (rule sum.cong) (use assms in \<open>simp_all add: spec_sim_self dgt_def\<close>)
  also have "\<dots> = (\<Sum>key \<leftarrow> keys a. Fin 1)"
    by (simp only: sum_list_distinct_conv_sum_set [OF distinct_keys])
  also have "\<dots> = toDouble (int (length (keys a)))"
    by (simp add: sum_list_Fin_1 toDouble_def)
  finally show ?thesis
    by (simp add: compareTimeSeries_sum keyFreq_def ddiv_one)
qed

theorem self_similarity_counts_keys_witness:
  "keys (Alist [(1, Fin 2), (5, Fin 3)]) = [1, 5] \<and>
   finite_nonzero (value_at (Alist [(1, Fin 2), (5, Fin 3)]) 1) \<and>
   finite_nonzero (value_at (Alist [(1, Fin 2), (5, Fin 3)]) 5) \<and>
   compareTimeSeries (Alist [(1, Fin 2), (5, Fin 3)]) (Alist [(1, Fin 2), (5, Fin 3)]) False
     = Some (Fin 2)"
proof -
  have a: "DAList.impl_of (Alist [(1 :: int, Fin 2), (5, Fin 3)]) = [(1, Fin 2), (5, Fin 3)]"
    by (simp add: impl_of_Alist)
  have h: "\<forall>key \<in> set (keys (Alist [(1, Fin 2), (5, Fin 3)])).
      finite_nonzero (value_at (Alist [(1, Fin 2), (5, Fin 3)]) key)"
    by (simp add: keys_def a value_at_def apply_map_def)
  from self_similarity_counts_keys [OF h] h show ?thesis
    by (simp add: keys_def a toDouble_def)
qed

subsection \<open>The frequency of a series without keys\<close>

text \<open>
  C7. With \<open>isFiltered\<close>, the frequency of a series that has no keys is claimed to be 1. It
  is the number of keys, 0. It is never divided by: a series without keys has no common key
  with any other, so the function returns \<open>0.0\<close> before the loop; and whenever the loop
  runs, both frequencies are at least 1.
\<close>

theorem empty_series_frequency_counterexample:
  "keyFreq True DAList.empty = 0 \<and> keyFreq True DAList.empty \<noteq> 1"
  by (simp add: keyFreq_def keys_def DAList.empty.rep_eq)

theorem no_division_by_zero_frequency:
  "(keys m = [] \<longrightarrow> keyFreq True m = 0) \<and>
   (keys m1 = [] \<or> keys m2 = [] \<longrightarrow>
      intersect (keys m2) (keys m1) = [] \<and> compareTimeSeries m1 m2 True = Some (Fin 0)) \<and>
   (intersect (keys m2) (keys m1) \<noteq> [] \<longrightarrow>
      1 \<le> keyFreq isFiltered m1 \<and> 1 \<le> keyFreq isFiltered m2)"
proof (intro conjI impI)
  assume "keys m = []"
  then show "keyFreq True m = 0"
    by (simp add: keyFreq_def)
next
  assume e: "keys m1 = [] \<or> keys m2 = []"
  then show "intersect (keys m2) (keys m1) = []"
    by (auto simp: intersect_def)
  from e show "compareTimeSeries m1 m2 True = Some (Fin 0)"
    by (auto simp: compareTimeSeries_sum zero_double_def)
next
  assume n: "intersect (keys m2) (keys m1) \<noteq> []"
  then have "set (intersect (keys m2) (keys m1)) \<noteq> {}"
    by simp
  then have "keys m1 \<noteq> []" and "keys m2 \<noteq> []"
    by (auto simp: set_intersect)
  then have "Suc 0 \<le> length (keys m1)" and "Suc 0 \<le> length (keys m2)"
    by (simp_all add: Suc_le_eq)
  then show "1 \<le> keyFreq isFiltered m1" and "1 \<le> keyFreq isFiltered m2"
    by (simp_all add: keyFreq_def)
qed

theorem no_division_by_zero_frequency_witness:
  "keys (DAList.empty :: series) = [] \<and> keyFreq True DAList.empty = 0 \<and>
   compareTimeSeries DAList.empty (Alist [(1, Fin 2)]) True = Some (Fin 0) \<and>
   intersect (keys (Alist [(1, Fin 2)])) (keys (Alist [(1, Fin 4), (2, Fin 1)])) \<noteq> [] \<and>
   1 \<le> keyFreq True (Alist [(1, Fin 4), (2, Fin 1)]) \<and> 1 \<le> keyFreq True (Alist [(1, Fin 2)])"
proof -
  have a: "DAList.impl_of (Alist [(1 :: int, Fin 2)]) = [(1, Fin 2)]"
    by (simp add: impl_of_Alist)
  have b: "DAList.impl_of (Alist [(1 :: int, Fin 4), (2, Fin 1)]) = [(1, Fin 4), (2, Fin 1)]"
    by (simp add: impl_of_Alist)
  have h1: "keys (DAList.empty :: series) = []"
    by (simp add: keys_def DAList.empty.rep_eq)
  have h2: "intersect (keys (Alist [(1, Fin 2)])) (keys (Alist [(1, Fin 4), (2, Fin 1)])) \<noteq> []"
    by (simp add: keys_def a b intersect_def)
  from no_division_by_zero_frequency [of DAList.empty DAList.empty "Alist [(1, Fin 2)]" True]
    no_division_by_zero_frequency [of DAList.empty "Alist [(1, Fin 4), (2, Fin 1)]" "Alist [(1, Fin 2)]" True]
    h1 h2
  show ?thesis
    by simp
qed

lemma pearson_empty:
  "{k \<in> set (keys a) \<inter> set (keys b). start < k \<and> k < stop} = {} \<Longrightarrow>
   pearsonCorrelation a b start stop isFiltered = Some (Fin 0)"
proof -
  assume e: "{k \<in> set (keys a) \<inter> set (keys b). start < k \<and> k < stop} = {}"
  have "set (filter (inWindow start stop) (intersect (keys b) (keys a)))
        = {k \<in> set (keys a) \<inter> set (keys b). start < k \<and> k < stop}"
    by (auto simp: set_intersect inWindow_def)
  with e have "filter (inWindow start stop) (intersect (keys b) (keys a)) = []"
    by (simp only: set_empty [symmetric])
  then show ?thesis
    by (simp add: pearsonCorrelation_def)
qed

subsection \<open>No common key\<close>

text \<open>
  C6. Two series with disjoint key sets have similarity \<open>0.0\<close>, with and without
  normalisation, in the unwindowed and in the windowed variant, and the correlation is
  \<open>0.0\<close> when no common key lies strictly inside \<open>(start, stop)\<close>; these are returned
  values.
\<close>

theorem empty_common_keys_zero:
  "(set (keys a) \<inter> set (keys b) = {} \<longrightarrow>
      compareTimeSeries a b isFiltered = Some (Fin 0) \<and>
      compareTimeSeriesWindow a b start stop lowerBound isFiltered lambda = Some (Fin 0)) \<and>
   ({k \<in> set (keys a) \<inter> set (keys b). start < k \<and> k < stop} = {} \<longrightarrow>
      pearsonCorrelation a b start stop isFiltered' = Some (Fin 0))"
proof (intro conjI impI)
  assume "set (keys a) \<inter> set (keys b) = {}"
  then show "compareTimeSeries a b isFiltered = Some (Fin 0)"
    by (simp add: compareTimeSeries_sum zero_double_def)
next
  assume e: "set (keys a) \<inter> set (keys b) = {}"
  have "\<And>P m. set (keys (DAList.filter P m)) \<subseteq> set (keys m)"
    by (auto simp: keys_def DAList.filter.rep_eq)
  with e have "\<And>P. set (keys (DAList.filter P a)) \<inter> set (keys (DAList.filter P b)) = {}"
    by blast
  then have "\<And>P. intersect (keys (DAList.filter P b)) (keys (DAList.filter P a)) = []"
    by (simp add: set_empty [symmetric] set_intersect Int_commute del: set_empty)
  then show "compareTimeSeriesWindow a b start stop lowerBound isFiltered lambda = Some (Fin 0)"
    by (simp add: compareTimeSeriesWindow_def toDouble_def)
next
  assume "{k \<in> set (keys a) \<inter> set (keys b). start < k \<and> k < stop} = {}"
  then show "pearsonCorrelation a b start stop isFiltered' = Some (Fin 0)"
    by (rule pearson_empty)
qed

theorem empty_common_keys_zero_witness:
  "set (keys (Alist [(1, Fin 2), (5, Fin 3)])) \<inter> set (keys (Alist [(2, Fin 2), (6, Fin 3)])) = {} \<and>
   compareTimeSeries (Alist [(1, Fin 2), (5, Fin 3)]) (Alist [(2, Fin 2), (6, Fin 3)]) True
     = Some (Fin 0) \<and>
   compareTimeSeriesWindow (Alist [(1, Fin 2), (5, Fin 3)]) (Alist [(2, Fin 2), (6, Fin 3)])
       0 10 0 True (Fin (1 / 2))
     = Some (Fin 0) \<and>
   {k \<in> set (keys (Alist [(1, Fin 2), (5, Fin 3)])) \<inter> set (keys (Alist [(5, Fin 2), (6, Fin 3)])).
      5 < k \<and> k < 10} = {} \<and>
   pearsonCorrelation (Alist [(1, Fin 2), (5, Fin 3)]) (Alist [(5, Fin 2), (6, Fin 3)]) 5 10 True
     = Some (Fin 0)"
proof -
  have a: "DAList.impl_of (Alist [(1 :: int, Fin 2), (5, Fin 3)]) = [(1, Fin 2), (5, Fin 3)]"
    by (simp add: impl_of_Alist)
  have b: "DAList.impl_of (Alist [(2 :: int, Fin 2), (6, Fin 3)]) = [(2, Fin 2), (6, Fin 3)]"
    by (simp add: impl_of_Alist)
  have c: "DAList.impl_of (Alist [(5 :: int, Fin 2), (6, Fin 3)]) = [(5, Fin 2), (6, Fin 3)]"
    by (simp add: impl_of_Alist)
  have h1: "set (keys (Alist [(1, Fin 2), (5, Fin 3)])) \<inter> set (keys (Alist [(2, Fin 2), (6, Fin 3)])) = {}"
    by (simp add: keys_def a b)
  have h2: "{k \<in> set (keys (Alist [(1, Fin 2), (5, Fin 3)])) \<inter> set (keys (Alist [(5, Fin 2), (6, Fin 3)])).
      5 < k \<and> k < 10} = {}"
    by (auto simp: keys_def a c)
  from empty_common_keys_zero
      [of "Alist [(1, Fin 2), (5, Fin 3)]" "Alist [(2, Fin 2), (6, Fin 3)]" True 0 10 0 "Fin (1 / 2)"]
    empty_common_keys_zero
      [of "Alist [(1, Fin 2), (5, Fin 3)]" "Alist [(5, Fin 2), (6, Fin 3)]" True 5 10 0 "Fin (1 / 2)" True]
    h1 h2
  show ?thesis
    by simp
qed

section \<open>Properties of the three functions over any arithmetic\<close>

subsection \<open>The loops as folds\<close>

lemma distinct_keys_on: "distinct (keys_on m)"
  by (simp add: keys_on_def)

lemma apply_on_keys:
  "key \<in> set (keys_on m) \<Longrightarrow> apply_on m key = Some (value_on A m key)"
proof -
  assume "key \<in> set (keys_on m)"
  then have "key \<in> fst ` set (DAList.impl_of m)"
    by (simp add: keys_on_def)
  then obtain v where "map_of (DAList.impl_of m) key = Some v"
    by (metis domD dom_map_of_conv_image_fst)
  then show ?thesis
    by (simp add: apply_on_def value_on_def)
qed

lemma weightLoop_on_fold:
  "set ks \<subseteq> set (keys_on m1) \<inter> set (keys_on m2) \<Longrightarrow>
   weightLoop_on A m1 m2 f1 f2 ks w =
     Some (foldl (\<lambda>weight key.
                    let sim = sim_on A (d_div A (value_on A m1 key) (of_Int A f1))
                                       (d_div A (value_on A m2 key) (of_Int A f2))
                    in if d_gt A sim (lit_half A) then d_add A weight sim
                       else d_sub A weight sim) w ks)"
proof (induction ks arbitrary: w)
  case Nil
  then show ?case by simp
next
  case (Cons k ks)
  then have k1: "apply_on m1 k = Some (value_on A m1 k)"
    and k2: "apply_on m2 k = Some (value_on A m2 k)"
    and rest: "set ks \<subseteq> set (keys_on m1) \<inter> set (keys_on m2)"
    by (simp_all add: apply_on_keys)
  show ?case
    by (simp add: k1 k2 Cons.IH [OF rest] Let_def sim_on_def)
qed

lemma weightLoopWindow_on_fold:
  "set ks \<subseteq> set (keys_on m1) \<inter> set (keys_on m2) \<Longrightarrow>
   weightLoopWindow_on A m1 m2 f1 f2 lambda ks w =
     Some (foldl (\<lambda>weight key.
                    let sim = sim_on A (d_div A (value_on A m1 key) (of_Int A f1))
                                       (d_div A (value_on A m2 key) (of_Int A f2))
                    in d_add A weight (if d_gt A sim lambda then sim else lit_zero A)) w ks)"
proof (induction ks arbitrary: w)
  case Nil
  then show ?case by simp
next
  case (Cons k ks)
  then have k1: "apply_on m1 k = Some (value_on A m1 k)"
    and k2: "apply_on m2 k = Some (value_on A m2 k)"
    and rest: "set ks \<subseteq> set (keys_on m1) \<inter> set (keys_on m2)"
    by (simp_all add: apply_on_keys)
  show ?case
    by (simp add: k1 k2 Cons.IH [OF rest] Let_def sim_on_def)
qed

lemma exceeds_on_filter:
  "DAList.filter (\<lambda>pair. d_gt A (snd pair) (of_Int A lowerBound)) m = exceeds_on A lowerBound m"
  by (simp add: exceeds_on_def case_prod_unfold)

lemma window_common_keys:
  "filter (inWindow start stop) (intersect (keys_on m2) (keys_on m1))
   = [k \<leftarrow> window_keys_on start stop m2. k \<in> set (keys_on m1)]"
  by (simp add: intersect_def window_keys_on_def inWindow_def conj_commute)

lemma windowFreq_on_divisor:
  "of_Int A (windowFreq_on isFiltered start stop m) = divisor_on A isFiltered start stop m"
  by (simp add: windowFreq_on_def divisor_on_def window_keys_on_def inWindow_def [abs_def])

lemma compareTimeSeriesWindow_on_spec:
  "compareTimeSeriesWindow_on A m1 m2 start stop lowerBound isFiltered lambda
   = Some (spec_window_similarity_on A m1 m2 start stop lowerBound isFiltered lambda)"
proof -
  let ?f1 = "exceeds_on A lowerBound m1" and ?f2 = "exceeds_on A lowerBound m2"
  let ?ks = "[k \<leftarrow> window_keys_on start stop ?f2. k \<in> set (keys_on ?f1)]"
  have sub: "set ?ks \<subseteq> set (keys_on ?f1) \<inter> set (keys_on ?f2)"
    by (auto simp: window_keys_on_def)
  have unfold: "compareTimeSeriesWindow_on A m1 m2 start stop lowerBound isFiltered lambda =
      (if ?ks = [] then Some (of_Int A 0)
       else weightLoopWindow_on A ?f1 ?f2 (windowFreq_on isFiltered start stop ?f1)
              (windowFreq_on isFiltered start stop ?f2) lambda ?ks (lit_zero A))"
    by (simp add: compareTimeSeriesWindow_on_def exceeds_on_filter window_common_keys Let_def)
  show ?thesis
    unfolding unfold weightLoopWindow_on_fold [OF sub]
    by (simp add: spec_window_similarity_on_def Let_def windowFreq_on_divisor)
qed


subsection \<open>The loop of the correlation\<close>

lemma value_on_entry: "(k, v) \<in> set (DAList.impl_of m) \<Longrightarrow> value_on A m k = v"
  by (simp add: value_on_def apply_on_def)

lemma commonPart_on_values:
  "map snd (commonPart_on A m block f) = block_values_on A m (of_Int A f) block"
proof -
  let ?xs = "DAList.impl_of m"
  have "map snd (commonPart_on A m block f)
        = map (\<lambda>(k, v). d_div A v (of_Int A f)) (filter (\<lambda>(k, v). k \<in> set block) ?xs)"
    by (simp add: commonPart_on_def case_prod_unfold comp_def)
  also have "\<dots> = map (\<lambda>(k, v). d_div A (value_on A m k) (of_Int A f))
                       (filter (\<lambda>(k, v). k \<in> set block) ?xs)"
    by (rule map_cong) (auto simp: value_on_entry)
  also have "\<dots> = block_values_on A m (of_Int A f) block"
    by (simp add: block_values_on_def keys_on_def filter_map comp_def case_prod_unfold)
  finally show ?thesis .
qed

lemma commonPart_on_lookup:
  assumes "k \<in> set block" and "k \<in> set (keys_on m)"
  shows "map_of (commonPart_on A m block f) k = Some (d_div A (value_on A m k) (of_Int A f))"
proof -
  from assms(2) have "map_of (DAList.impl_of m) k = Some (value_on A m k)"
    using apply_on_keys [of k m A] by (simp add: apply_on_def)
  with assms(1)
  have "map_of (filter (\<lambda>(k, v). k \<in> set block) (DAList.impl_of m)) k = Some (value_on A m k)"
    by (intro map_of_filter_in) simp_all
  then show ?thesis
    by (simp add: commonPart_on_def map_of_map)
qed

lemma pSumLoop_on_fold:
  "(\<forall>k \<in> set ks. map_of c1 k = Some (u1 k) \<and> map_of c2 k = Some (u2 k)) \<Longrightarrow>
   pSumLoop_on A c1 c2 ks acc = Some (foldl (\<lambda>s k. d_add A s (d_mul A (u1 k) (u2 k))) acc ks)"
  by (induction ks arbitrary: acc) simp_all

lemma pearsonBlock_on_spec:
  assumes "set (slice t (t + 24) ks) \<subseteq> set (keys_on m1) \<inter> set (keys_on m2)"
  shows "pearsonBlock_on A m1 m2 f1 f2 ks n t acc =
     Some (spec_block_on A m1 m2 (of_Int A f1) (of_Int A f2) n acc (slice t (t + 24) ks))"
proof -
  let ?B = "slice t (t + 24) ks"
  let ?v1 = "\<lambda>k. d_div A (value_on A m1 k) (of_Int A f1)"
  let ?v2 = "\<lambda>k. d_div A (value_on A m2 k) (of_Int A f2)"
  have "\<forall>k \<in> set ?B. map_of (commonPart_on A m1 ?B f1) k = Some (?v1 k) \<and>
                       map_of (commonPart_on A m2 ?B f2) k = Some (?v2 k)"
    using assms by (auto intro: commonPart_on_lookup)
  then have p: "pSumLoop_on A (commonPart_on A m1 ?B f1) (commonPart_on A m2 ?B f2) ?B (lit_zero A)
                = Some (foldl (\<lambda>s k. d_add A s (d_mul A (?v1 k) (?v2 k))) (lit_zero A) ?B)"
    by (rule pSumLoop_on_fold)
  show ?thesis
    unfolding pearsonBlock_on_def Let_def commonPart_on_values p spec_block_on_def
    by simp
qed

lemma pearsonLoop_on_spec:
  assumes "set ks \<subseteq> set (keys_on m1) \<inter> set (keys_on m2)"
  shows "pearsonLoop_on A m1 m2 f1 f2 ks n t acc =
     Some (foldl (spec_block_on A m1 m2 (of_Int A f1) (of_Int A f2) n) acc (chunks 24 (drop t ks)))"
  using assms
proof (induction A m1 m2 f1 f2 ks n t acc rule: pearsonLoop_on.induct)
  case (1 A m1 m2 f1 f2 ks n t acc)
  let ?B = "slice t (t + 24) ks"
  let ?sb = "spec_block_on A m1 m2 (of_Int A f1) (of_Int A f2) n"
  show ?case
  proof (cases "t < length ks")
    case False
    then show ?thesis
      by (simp add: pearsonLoop_on.simps [of _ _ _ _ _ ks] chunks.simps [of _ "[]"])
  next
    case True
    have B: "?B = take 24 (drop t ks)"
      by (simp add: slice_def)
    have sB: "set ?B \<subseteq> set (keys_on m1) \<inter> set (keys_on m2)"
      using "1.prems" set_take_subset [of 24 "drop t ks"] set_drop_subset [of t ks]
      unfolding B by blast
    have blk: "pearsonBlock_on A m1 m2 f1 f2 ks n t acc = Some (?sb acc ?B)"
      using sB by (rule pearsonBlock_on_spec)
    have ne: "drop t ks \<noteq> []"
      using True by simp
    have ch: "chunks 24 (drop t ks) = ?B # chunks 24 (drop (t + 24) ks)"
      using ne by (subst chunks.simps) (simp add: B add.commute)
    have "pearsonLoop_on A m1 m2 f1 f2 ks n t acc
          = pearsonLoop_on A m1 m2 f1 f2 ks n (t + 24) (?sb acc ?B)"
      using True by (subst pearsonLoop_on.simps) (simp add: blk)
    also have "\<dots> = Some (foldl ?sb (?sb acc ?B) (chunks 24 (drop (t + 24) ks)))"
      using "1.IH" [OF True blk "1.prems"] .
    finally show ?thesis
      by (simp add: ch)
  qed
qed

lemma common_keys_on_sorted:
  "sort (filter (inWindow start stop) (intersect (keys_on m2) (keys_on m1)))
   = common_keys_on m1 m2 start stop"
proof -
  let ?L = "filter (inWindow start stop) (intersect (keys_on m2) (keys_on m1))"
  have d: "distinct ?L"
    by (simp add: intersect_def distinct_keys_on)
  have s: "set ?L = set (window_keys_on start stop m1) \<inter> set (window_keys_on start stop m2)"
    by (auto simp: intersect_def window_keys_on_def inWindow_def)
  have "sorted_list_of_set (set ?L) = sort (remdups ?L)"
    by (rule sorted_list_of_set_sort_remdups)
  also have "remdups ?L = ?L"
    using d by (rule distinct_remdups_id)
  finally show ?thesis
    by (simp only: common_keys_on_def s)
qed

lemma common_keys_on_facts:
  "distinct (common_keys_on m1 m2 start stop) \<and>
   sorted (common_keys_on m1 m2 start stop) \<and>
   set (common_keys_on m1 m2 start stop)
     = {k \<in> set (keys_on m1) \<inter> set (keys_on m2). start < k \<and> k < stop}"
  by (auto simp: common_keys_on_def window_keys_on_def)

lemma chunks_facts:
  "concat (chunks k xs) = (if k = 0 then [] else xs) \<and>
   (\<forall>block \<in> set (chunks k xs). 0 < length block \<and> length block \<le> k)"
proof (induction k xs rule: chunks.induct)
  case (1 k xs)
  show ?case
  proof (cases "k = 0 \<or> xs = []")
    case True
    then show ?thesis
      by (auto simp: chunks.simps [of k xs])
  next
    case False
    with "1.IH" show ?thesis
      by (subst (1 2) chunks.simps) auto
  qed
qed

lemma pearsonCorrelation_on_spec:
  "pearsonCorrelation_on A m1 m2 start stop isFiltered
   = Some (spec_pearson_on A m1 m2 start stop isFiltered)"
proof -
  let ?ks = "common_keys_on m1 m2 start stop"
  have sub: "set ?ks \<subseteq> set (keys_on m1) \<inter> set (keys_on m2)"
    using common_keys_on_facts [of m1 m2 start stop] by auto
  show ?thesis
  proof (cases "?ks = []")
    case True
    then show ?thesis
      by (simp add: pearsonCorrelation_on_def common_keys_on_sorted spec_pearson_on_def
          chunks.simps [of _ "[]"])
  next
    case False
    then show ?thesis
      by (simp add: pearsonCorrelation_on_def common_keys_on_sorted spec_pearson_on_def Let_def
          pearsonLoop_on_spec [OF sub] windowFreq_on_divisor)
  qed
qed


subsection \<open>Exchange of the two series\<close>

lemma compareTimeSeries_on_fold:
  "compareTimeSeries_on A m1 m2 isFiltered =
     Some (if intersect (keys_on m2) (keys_on m1) = [] then of_Int A 0
           else foldl (\<lambda>weight key.
                    let sim = sim_on A
                          (d_div A (value_on A m1 key) (of_Int A (keyFreq_on isFiltered m1)))
                          (d_div A (value_on A m2 key) (of_Int A (keyFreq_on isFiltered m2)))
                    in if d_gt A sim (lit_half A) then d_add A weight sim
                       else d_sub A weight sim) (lit_zero A) (intersect (keys_on m2) (keys_on m1)))"
proof -
  have sub: "set (intersect (keys_on m2) (keys_on m1)) \<subseteq> set (keys_on m1) \<inter> set (keys_on m2)"
    by (auto simp: intersect_def)
  show ?thesis
    by (simp add: compareTimeSeries_on_def Let_def weightLoop_on_fold [OF sub])
qed

lemma sim_on_commute:
  assumes "\<forall>x y. d_min A x y = d_min A y x" and "\<forall>x y. d_max A x y = d_max A y x"
  shows "sim_on A x y = sim_on A y x"
proof -
  have "d_min A x y = d_min A y x" and "d_max A x y = d_max A y x"
    using assms by blast+
  then show ?thesis
    by (simp add: sim_on_def)
qed

lemma compareTimeSeries_on_commute:
  assumes "\<forall>x y. d_min A x y = d_min A y x" and "\<forall>x y. d_max A x y = d_max A y x"
    and "intersect (keys_on m2) (keys_on m1) = intersect (keys_on m1) (keys_on m2)"
  shows "compareTimeSeries_on A m1 m2 isFiltered = compareTimeSeries_on A m2 m1 isFiltered"
  unfolding compareTimeSeries_on_fold assms(3)
  by (simp only: sim_on_commute [OF assms(1,2), of "d_div A (value_on A m1 _) _"])

lemma spec_window_similarity_on_commute:
  assumes "\<forall>x y. d_min A x y = d_min A y x" and "\<forall>x y. d_max A x y = d_max A y x"
    and "intersect (keys_on (exceeds_on A lowerBound m2)) (keys_on (exceeds_on A lowerBound m1))
         = intersect (keys_on (exceeds_on A lowerBound m1)) (keys_on (exceeds_on A lowerBound m2))"
  shows "compareTimeSeriesWindow_on A m1 m2 start stop lowerBound isFiltered lambda
         = compareTimeSeriesWindow_on A m2 m1 start stop lowerBound isFiltered lambda"
proof -
  let ?f1 = "exceeds_on A lowerBound m1" and ?f2 = "exceeds_on A lowerBound m2"
  have "filter (inWindow start stop) (intersect (keys_on ?f2) (keys_on ?f1))
        = filter (inWindow start stop) (intersect (keys_on ?f1) (keys_on ?f2))"
    by (simp only: assms(3))
  then have k: "[k \<leftarrow> window_keys_on start stop ?f2. k \<in> set (keys_on ?f1)]
                = [k \<leftarrow> window_keys_on start stop ?f1. k \<in> set (keys_on ?f2)]"
    by (simp only: window_common_keys)
  show ?thesis
    unfolding compareTimeSeriesWindow_on_spec spec_window_similarity_on_def Let_def k
    by (simp only: sim_on_commute [OF assms(1,2), of "d_div A (value_on A ?f1 _) _"])
qed

lemma spec_block_on_commute:
  assumes "\<forall>x y. d_mul A x y = d_mul A y x"
  shows "spec_block_on A a b freqA freqB n sum_acc block
         = spec_block_on A b a freqB freqA n sum_acc block"
proof -
  have c: "\<And>x y. d_mul A x y = d_mul A y x"
    using assms by blast
  show ?thesis
    unfolding spec_block_on_def Let_def
    by (simp only: c [of "d_div A (value_on A a _) freqA"]
        c [of "foldl (d_add A) (lit_zero A) (block_values_on A a freqA block)"]
        c [of "d_sub A (foldl (\<lambda>s v. d_add A s (d_pow2 A v)) (lit_zero A)
                          (block_values_on A a freqA block)) _"])
qed

lemma pearsonCorrelation_on_commute:
  assumes "\<forall>x y. d_mul A x y = d_mul A y x"
  shows "pearsonCorrelation_on A m1 m2 start stop isFiltered
         = pearsonCorrelation_on A m2 m1 start stop isFiltered"
proof -
  have k: "common_keys_on m1 m2 start stop = common_keys_on m2 m1 start stop"
    by (simp add: common_keys_on_def Int_commute)
  have b: "\<And>fa fb n. spec_block_on A m1 m2 fa fb n = spec_block_on A m2 m1 fb fa n"
    by (intro ext) (rule spec_block_on_commute [OF assms])
  show ?thesis
    by (simp add: pearsonCorrelation_on_spec spec_pearson_on_def Let_def k b)
qed

lemma f_min_commute: "f_min a b = f_min b a"
  by (cases a; cases b) (auto simp: f_min_def f_lt_def)

lemma f_max_commute: "f_max a b = f_max b a"
  by (cases a; cases b) (auto simp: f_max_def f_lt_def)


subsection \<open>The functions of the first part are those over the exact arithmetic\<close>

lemma keys_on_series: "keys_on (m :: series) = keys m"
  by (simp add: keys_on_def keys_def)

lemma weightLoop_on_exact:
  "weightLoop_on exact m1 m2 f1 f2 ks w = weightLoop m1 m2 f1 f2 ks w"
  by (induction ks arbitrary: w)
    (simp_all add: exact_def apply_on_def apply_map_def Let_def split: option.splits)

lemma compareTimeSeries_on_exact:
  "compareTimeSeries_on exact m1 m2 isFiltered = compareTimeSeries m1 m2 isFiltered"
proof -
  have "of_Int exact 0 = toDouble 0" and "lit_zero exact = Fin 0"
    by (simp_all add: exact_def)
  then show ?thesis
    by (simp add: compareTimeSeries_on_def compareTimeSeries_def keys_on_series keyFreq_on_def
        keyFreq_def weightLoop_on_exact Let_def)
qed

lemma weightLoopWindow_on_exact:
  "weightLoopWindow_on exact m1 m2 f1 f2 lambda ks w = weightLoopWindow m1 m2 f1 f2 lambda ks w"
  by (induction ks arbitrary: w)
    (simp_all add: exact_def apply_on_def apply_map_def Let_def split: option.splits)

lemma compareTimeSeriesWindow_on_exact:
  "compareTimeSeriesWindow_on exact m1 m2 start stop upperBound isFiltered lambda
   = compareTimeSeriesWindow m1 m2 start stop upperBound isFiltered lambda"
proof -
  have "of_Int exact = toDouble" and "lit_zero exact = Fin 0" and "d_gt exact = dgt"
    by (simp_all add: exact_def)
  then show ?thesis
    by (simp add: compareTimeSeriesWindow_on_def compareTimeSeriesWindow_def keys_on_series
        windowFreq_on_def windowFreq_def weightLoopWindow_on_exact Let_def)
qed

lemma pSumLoop_on_exact: "pSumLoop_on exact c1 c2 ks acc = pSumLoop c1 c2 ks acc"
  by (induction ks arbitrary: acc) (simp_all add: exact_def split: option.splits)

lemma pearsonBlock_on_exact:
  "pearsonBlock_on exact m1 m2 f1 f2 ks n t acc = pearsonBlock m1 m2 f1 f2 ks n t acc"
proof -
  have e: "of_Int exact = toDouble" "lit_zero exact = Fin 0" "d_add exact = (+)"
    "d_sub exact = dsub" "d_div exact = ddiv" "d_mul exact = dmul" "d_sqrt exact = dsqrt"
    "d_pow2 exact = dpow2" "d_eq exact = deq"
    by (simp_all add: exact_def)
  have c: "\<And>m B f. commonPart_on exact m B f = commonPart m B f"
    by (simp add: commonPart_on_def commonPart_def e)
  show ?thesis
    by (simp add: pearsonBlock_on_def pearsonBlock_def c pSumLoop_on_exact e zero_double_def Let_def
        cong: option.case_cong if_cong)
qed

lemma pearsonLoop_on_exact:
  "pearsonLoop_on exact m1 m2 f1 f2 ks n t acc = pearsonLoop m1 m2 f1 f2 ks n t acc"
proof (induction m1 m2 f1 f2 ks n t acc rule: pearsonLoop.induct)
  case (1 m1 m2 f1 f2 ks n t acc)
  show ?case
    by (subst pearsonLoop_on.simps, subst pearsonLoop.simps)
      (simp add: pearsonBlock_on_exact "1.IH" split: option.splits)
qed

lemma pearsonCorrelation_on_exact:
  "pearsonCorrelation_on exact m1 m2 start stop isFiltered
   = pearsonCorrelation m1 m2 start stop isFiltered"
proof -
  have "lit_zero exact = Fin 0"
    by (simp add: exact_def)
  then show ?thesis
    by (simp add: pearsonCorrelation_on_def pearsonCorrelation_def keys_on_series
        windowFreq_on_def windowFreq_def pearsonLoop_on_exact Let_def)
qed

subsection \<open>The exponent and the nearest integer of the rounding\<close>

lemma floorlog2_bounds:
  assumes "0 < n"
  shows "2 ^ (floorlog 2 n - 1) \<le> n" and "n < 2 ^ floorlog 2 n" and "0 < floorlog 2 n"
proof -
  from floorlog_bounds [of n 2] assms
  show "2 ^ (floorlog 2 n - 1) \<le> n" and "n < 2 ^ floorlog 2 n"
    by simp_all
  show "0 < floorlog 2 n"
    using assms by (simp add: floorlog_def)
qed

lemma expo_bounds:
  assumes "0 < a"
  shows "pow2 (expo a) \<le> a \<and> a < pow2 (expo a + 1)"
proof (cases "1 \<le> a")
  case True
  let ?n = "nat \<lfloor>a\<rfloor>"
  let ?L = "floorlog 2 ?n"
  from True have n: "0 < ?n"
    by simp
  have e: "expo a = int ?L - 1"
    using True by (simp add: expo_def)
  have L: "0 < ?L"
    using n by (rule floorlog2_bounds)
  have "(2::nat) ^ (?L - 1) \<le> ?n"
    using n by (rule floorlog2_bounds)
  then have "real ((2::nat) ^ (?L - 1)) \<le> real ?n"
    by (simp only: of_nat_le_iff)
  also have "real ?n \<le> a"
    using True by simp
  finally have lo: "2 ^ (?L - 1) \<le> a"
    by (simp only: of_nat_power of_nat_numeral)
  have "?n < 2 ^ ?L"
    using n by (rule floorlog2_bounds)
  then have "?n + 1 \<le> 2 ^ ?L"
    by (simp only: Suc_eq_plus1 [symmetric] Suc_le_eq)
  then have "real (?n + 1) \<le> real (2 ^ ?L)"
    by (simp only: of_nat_le_iff)
  moreover have "a < real (?n + 1)"
    using True by simp linarith
  ultimately have "a < real (2 ^ ?L)"
    by (rule less_le_trans [rotated])
  then have hi: "a < 2 ^ ?L"
    by (simp only: of_nat_power of_nat_numeral)
  have p1: "pow2 (int ?L - 1) = 2 ^ (?L - 1)"
    using L by (simp add: pow2_def nat_diff_distrib')
  have p2: "pow2 (int ?L - 1 + 1) = 2 ^ ?L"
    by (simp add: pow2_def)
  from lo hi show ?thesis
    by (simp only: e p1 p2)
next
  case False
  let ?y = "1 / a"
  let ?n = "nat (\<lceil>?y\<rceil> - 1)"
  let ?L = "floorlog 2 ?n"
  from False assms have y: "1 < ?y"
    by simp
  then have c: "2 \<le> \<lceil>?y\<rceil>"
    by linarith
  then have n: "0 < ?n"
    by simp
  have e: "expo a = - int ?L"
    using False by (simp add: expo_def)
  have L: "0 < ?L"
    using n by (rule floorlog2_bounds)
  have "?n < 2 ^ ?L"
    using n by (rule floorlog2_bounds)
  then have "?n + 1 \<le> 2 ^ ?L"
    by (simp only: Suc_eq_plus1 [symmetric] Suc_le_eq)
  then have "real (?n + 1) \<le> real (2 ^ ?L)"
    by (simp only: of_nat_le_iff)
  moreover have "?y \<le> real (?n + 1)"
    using c by simp linarith
  ultimately have "?y \<le> real (2 ^ ?L)"
    by (rule order_trans [rotated])
  then have "?y \<le> 2 ^ ?L"
    by (simp only: of_nat_power of_nat_numeral)
  then have lo: "1 / 2 ^ ?L \<le> a"
    using assms by (simp add: field_simps)
  have "(2::nat) ^ (?L - 1) \<le> ?n"
    using n by (rule floorlog2_bounds)
  then have "real ((2::nat) ^ (?L - 1)) \<le> real ?n"
    by (simp only: of_nat_le_iff)
  moreover have "real ?n < ?y"
    using c by simp linarith
  ultimately have "real ((2::nat) ^ (?L - 1)) < ?y"
    by (rule le_less_trans)
  then have "2 ^ (?L - 1) < ?y"
    by (simp only: of_nat_power of_nat_numeral)
  then have hi: "a < 1 / 2 ^ (?L - 1)"
    using assms by (simp add: field_simps)
  have p1: "pow2 (- int ?L) = 1 / 2 ^ ?L"
    using L by (simp add: pow2_def)
  have p2: "pow2 (- int ?L + 1) = 1 / 2 ^ (?L - 1)"
  proof (cases "?L = 1")
    case True
    then show ?thesis by (simp add: pow2_def)
  next
    case False
    with L have "2 \<le> ?L" by simp
    then show ?thesis
      by (simp add: pow2_def nat_diff_distrib')
  qed
  from lo hi show ?thesis
    by (simp only: e p1 p2)
qed

lemma round_even_nearest: "\<bar>of_int (round_even m) - m\<bar> \<le> 1 / 2"
proof -
  have "of_int \<lfloor>m\<rfloor> \<le> m" and "m < of_int \<lfloor>m\<rfloor> + 1"
    by linarith+
  then show ?thesis
    by (auto simp: round_even_def Let_def)
qed

subsection \<open>The windowed similarity\<close>

text \<open>
  C4. The windowed variant first drops from each series the keys whose value does not
  exceed the lower bound, keeps the common keys strictly inside \<open>(start, stop)\<close>, compares
  each \<open>sim\<close> with \<open>lambda\<close>, and adds \<open>0.0\<close> for a key whose \<open>sim\<close> is not above it, where
  the unwindowed variant subtracts. This holds whatever the arithmetic; in the example,
  computed in binary64, the key with counts 5 and 8 has \<open>sim = 0.6250000000000001\<close>,
  above \<open>lambda = 0.625\<close>, and the other common key adds \<open>0.0\<close>.
\<close>

theorem windowed_similarity_formula:
  "compareTimeSeriesWindow_on A m1 m2 start stop lowerBound isFiltered lambda
   = Some (spec_window_similarity_on A m1 m2 start stop lowerBound isFiltered lambda)"
  by (rule compareTimeSeriesWindow_on_spec)

theorem windowed_similarity_formula_witness:
  "compareTimeSeriesWindow_on binary64
       (series_of [(1, Val 5), (2, Val 1), (3, Val 1)])
       (series_of [(1, Val 8), (2, Val 4), (5, Val 1)]) 0 100 0 True (Val (5 / 8))
     = Some (Val (5629499534213121 / 9007199254740992)) \<and>
   spec_window_similarity_on binary64
       (series_of [(1, Val 5), (2, Val 1), (3, Val 1)])
       (series_of [(1, Val 8), (2, Val 4), (5, Val 1)]) 0 100 0 True (Val (5 / 8))
     = Val (5629499534213121 / 9007199254740992)"
proof -
  have c: "compareTimeSeriesWindow_on binary64
       (series_of [(1, Val 5), (2, Val 1), (3, Val 1)])
       (series_of [(1, Val 8), (2, Val 4), (5, Val 1)]) 0 100 0 True (Val (5 / 8))
     = Some (Val (5629499534213121 / 9007199254740992))"
    by code_simp
  from windowed_similarity_formula
    [of binary64 "series_of [(1, Val 5), (2, Val 1), (3, Val 1)]"
        "series_of [(1, Val 8), (2, Val 4), (5, Val 1)]" 0 100 0 True "Val (5 / 8)"] c
  show ?thesis
    by simp
qed

subsection \<open>The correlation over blocks\<close>

text \<open>
  C3. The correlation takes the common keys strictly inside \<open>(start, stop)\<close> in ascending
  order, cuts them into consecutive blocks of at most 24 keys, and runs through the blocks
  with a running sum: a block adds its \<open>numerator/denominator\<close>, computed with the number
  of all common keys as the sample size \<open>n\<close>, and nothing when its denominator equals 0.
  This holds whatever the arithmetic, which alone decides whether a denominator is 0.
\<close>

theorem pearson_blocked_sum:
  "pearsonCorrelation_on A m1 m2 start stop isFiltered
     = Some (spec_pearson_on A m1 m2 start stop isFiltered) \<and>
   sorted (common_keys_on m1 m2 start stop) \<and>
   distinct (common_keys_on m1 m2 start stop) \<and>
   set (common_keys_on m1 m2 start stop)
     = {k \<in> set (keys_on m1) \<inter> set (keys_on m2). start < k \<and> k < stop} \<and>
   concat (chunks 24 (common_keys_on m1 m2 start stop)) = common_keys_on m1 m2 start stop \<and>
   (\<forall>block \<in> set (chunks 24 (common_keys_on m1 m2 start stop)).
      0 < length block \<and> length block \<le> 24)"
  using pearsonCorrelation_on_spec [of A m1 m2 start stop isFiltered]
    common_keys_on_facts [of m1 m2 start stop]
    chunks_facts [of 24 "common_keys_on m1 m2 start stop"]
  by simp

theorem pearson_blocked_sum_witness:
  "pearsonCorrelation_on exact (Alist [(1, Fin 1), (2, Fin 2)]) (Alist [(1, Fin 2), (2, Fin 4)])
       0 10 False
     = Some (Fin 1) \<and>
   spec_pearson_on exact (Alist [(1, Fin 1), (2, Fin 2)]) (Alist [(1, Fin 2), (2, Fin 4)])
       0 10 False
     = Fin 1"
proof -
  have a: "DAList.impl_of (Alist [(1 :: int, Fin 1), (2, Fin 2)]) = [(1, Fin 1), (2, Fin 2)]"
    by (simp add: impl_of_Alist)
  have b: "DAList.impl_of (Alist [(1 :: int, Fin 2), (2, Fin 4)]) = [(1, Fin 2), (2, Fin 4)]"
    by (simp add: impl_of_Alist)
  have c: "pearsonCorrelation_on exact (Alist [(1, Fin 1), (2, Fin 2)])
             (Alist [(1, Fin 2), (2, Fin 4)]) 0 10 False = Some (Fin 1)"
    by (simp add: pearsonCorrelation_on_def keys_on_def a b intersect_def inWindow_def
        windowFreq_on_def pearsonLoop_on.simps pearsonBlock_on_def slice_def commonPart_on_def
        exact_def toDouble_def dsub_def deq_def)
  from pearson_blocked_sum
    [of exact "Alist [(1, Fin 1), (2, Fin 2)]" "Alist [(1, Fin 2), (2, Fin 4)]" 0 10 False] c
  show ?thesis
    by simp
qed

subsection \<open>Exchanging the two series\<close>

text \<open>
  C10. The three functions are claimed to return the same result when the two series are
  exchanged. The two similarity functions add their terms in the key order of the second
  series, and in binary64 the order matters: for \<open>a = {1: 1, 2: 2, 3: 3}\<close> and
  \<open>b = {3: 10, 2: 10, 1: 10}\<close> (written in traversal order) the result is \<open>-0.6\<close> one way
  round and \<open>-0.6000000000000001\<close> the other. What holds: the correlation is symmetric,
  its keys being sorted and its sums taken per series, as soon as \<open>*\<close> is commutative; and
  each similarity function is symmetric for two series that list their common keys in the
  same order, as soon as \<open>min\<close> and \<open>max\<close> are commutative, which those of binary64 are.
\<close>

theorem swapped_series_counterexample:
  "compareTimeSeries_on binary64
       (series_of [(1, Val 1), (2, Val 2), (3, Val 3)])
       (series_of [(3, Val 10), (2, Val 10), (1, Val 10)]) False
     = Some (Val (- 5404319552844595 / 9007199254740992)) \<and>
   compareTimeSeries_on binary64
       (series_of [(3, Val 10), (2, Val 10), (1, Val 10)])
       (series_of [(1, Val 1), (2, Val 2), (3, Val 3)]) False
     = Some (Val (- 1351079888211149 / 2251799813685248)) \<and>
   compareTimeSeries_on binary64
       (series_of [(1, Val 1), (2, Val 2), (3, Val 3)])
       (series_of [(3, Val 10), (2, Val 10), (1, Val 10)]) False
     \<noteq> compareTimeSeries_on binary64
       (series_of [(3, Val 10), (2, Val 10), (1, Val 10)])
       (series_of [(1, Val 1), (2, Val 2), (3, Val 3)]) False"
  by code_simp

theorem swapped_series:
  assumes "\<forall>x y. d_mul A x y = d_mul A y x"
    and "\<forall>x y. d_min S x y = d_min S y x"
    and "\<forall>x y. d_max S x y = d_max S y x"
  shows
    "pearsonCorrelation_on A a b start stop isFiltered
       = pearsonCorrelation_on A b a start stop isFiltered \<and>
     (intersect (keys_on d) (keys_on c) = intersect (keys_on c) (keys_on d) \<longrightarrow>
        compareTimeSeries_on S c d isFiltered = compareTimeSeries_on S d c isFiltered) \<and>
     (intersect (keys_on (exceeds_on S lowerBound d)) (keys_on (exceeds_on S lowerBound c))
        = intersect (keys_on (exceeds_on S lowerBound c)) (keys_on (exceeds_on S lowerBound d)) \<longrightarrow>
        compareTimeSeriesWindow_on S c d start stop lowerBound isFiltered lambda
          = compareTimeSeriesWindow_on S d c start stop lowerBound isFiltered lambda)"
proof (intro conjI impI)
  show "pearsonCorrelation_on A a b start stop isFiltered
        = pearsonCorrelation_on A b a start stop isFiltered"
    using assms(1) by (rule pearsonCorrelation_on_commute)
next
  assume "intersect (keys_on d) (keys_on c) = intersect (keys_on c) (keys_on d)"
  with assms(2,3)
  show "compareTimeSeries_on S c d isFiltered = compareTimeSeries_on S d c isFiltered"
    by (rule compareTimeSeries_on_commute)
next
  assume "intersect (keys_on (exceeds_on S lowerBound d)) (keys_on (exceeds_on S lowerBound c))
        = intersect (keys_on (exceeds_on S lowerBound c)) (keys_on (exceeds_on S lowerBound d))"
  with assms(2,3)
  show "compareTimeSeriesWindow_on S c d start stop lowerBound isFiltered lambda
          = compareTimeSeriesWindow_on S d c start stop lowerBound isFiltered lambda"
    by (rule spec_window_similarity_on_commute)
qed

theorem swapped_series_witness:
  "pearsonCorrelation_on exact (Alist [(1, Fin 1), (2, Fin 2)]) (Alist [(1, Fin 2), (2, Fin 4)])
       0 100 True
     = pearsonCorrelation_on exact (Alist [(1, Fin 2), (2, Fin 4)]) (Alist [(1, Fin 1), (2, Fin 2)])
       0 100 True \<and>
   intersect (keys_on (series_of [(1, Val 8), (2, Val 4), (5, Val 1)]))
             (keys_on (series_of [(1, Val 5), (2, Val 1), (3, Val 1)]))
     = intersect (keys_on (series_of [(1, Val 5), (2, Val 1), (3, Val 1)]))
                 (keys_on (series_of [(1, Val 8), (2, Val 4), (5, Val 1)])) \<and>
   compareTimeSeries_on binary64
       (series_of [(1, Val 5), (2, Val 1), (3, Val 1)])
       (series_of [(1, Val 8), (2, Val 4), (5, Val 1)]) True
     = Some (Val (3377699720527873 / 9007199254740992)) \<and>
   compareTimeSeries_on binary64
       (series_of [(1, Val 8), (2, Val 4), (5, Val 1)])
       (series_of [(1, Val 5), (2, Val 1), (3, Val 1)]) True
     = Some (Val (3377699720527873 / 9007199254740992)) \<and>
   compareTimeSeriesWindow_on binary64
       (series_of [(1, Val 5), (2, Val 1), (3, Val 1)])
       (series_of [(1, Val 8), (2, Val 4), (5, Val 1)]) 0 100 0 True (Val (5 / 8))
     = compareTimeSeriesWindow_on binary64
       (series_of [(1, Val 8), (2, Val 4), (5, Val 1)])
       (series_of [(1, Val 5), (2, Val 1), (3, Val 1)]) 0 100 0 True (Val (5 / 8))"
proof -
  have mul: "\<forall>x y. d_mul exact x y = d_mul exact y x"
    by (simp add: exact_def dmul_commute)
  have mn: "\<forall>x y. d_min binary64 x y = d_min binary64 y x"
    by (simp add: binary64_def f_min_commute)
  have mx: "\<forall>x y. d_max binary64 x y = d_max binary64 y x"
    by (simp add: binary64_def f_max_commute)
  have k: "intersect (keys_on (series_of [(1, Val 8), (2, Val 4), (5, Val 1)]))
                     (keys_on (series_of [(1, Val 5), (2, Val 1), (3, Val 1)]))
           = intersect (keys_on (series_of [(1, Val 5), (2, Val 1), (3, Val 1)]))
                       (keys_on (series_of [(1, Val 8), (2, Val 4), (5, Val 1)]))"
    by code_simp
  have k': "intersect
              (keys_on (exceeds_on binary64 0 (series_of [(1, Val 8), (2, Val 4), (5, Val 1)])))
              (keys_on (exceeds_on binary64 0 (series_of [(1, Val 5), (2, Val 1), (3, Val 1)])))
            = intersect
              (keys_on (exceeds_on binary64 0 (series_of [(1, Val 5), (2, Val 1), (3, Val 1)])))
              (keys_on (exceeds_on binary64 0 (series_of [(1, Val 8), (2, Val 4), (5, Val 1)])))"
    by code_simp
  have c: "compareTimeSeries_on binary64
             (series_of [(1, Val 5), (2, Val 1), (3, Val 1)])
             (series_of [(1, Val 8), (2, Val 4), (5, Val 1)]) True
           = Some (Val (3377699720527873 / 9007199254740992))"
    by code_simp
  from swapped_series [OF mul mn mx,
      where a = "Alist [(1, Fin 1), (2, Fin 2)]" and b = "Alist [(1, Fin 2), (2, Fin 4)]"
        and start = 0 and stop = 100 and isFiltered = True
        and c = "series_of [(1, Val 5), (2, Val 1), (3, Val 1)]"
        and d = "series_of [(1, Val 8), (2, Val 4), (5, Val 1)]"
        and lowerBound = 0 and lambda = "Val (5 / 8)"]
    k k' c
  show ?thesis
    by simp
qed

end
